theory Spec2Isabelle
  imports Complex_Main
begin

section \<open>The scripting runtime as seen from libcarla.cpp\<close>

text \<open>
  The binding layer of \<^verbatim>\<open>PythonAPI/carla/source/libcarla/libcarla.cpp\<close> talks to the
  embedded interpreter through Boost.Python objects. A scripting object is a value of
  \<open>py_object\<close>; only \<open>PyFunction\<close> values are callable. A function object is
  identified by a number, and what it does when called is given by a behaviour table
  \<open>nat \<Rightarrow> py_object \<Rightarrow> py_exception + py_object\<close> (\<open>Inl\<close>: the call raises).
\<close>

datatype py_exc_type =
    PyExc_TypeError | PyExc_ValueError | PyExc_RuntimeError | PyExc_IndexError | PyExc_SystemExit

datatype py_exception = PyException (exc_type: py_exc_type) string

datatype py_object =
    PyNone
  | PyBool bool
  | PyInt int
  | PyStr string
  | PyList "py_object list"
  | PyFunction nat

text \<open>
  C++ exceptions that cross the functions of the file: \<open>error_already_set\<close> is
  Boost.Python's exception, thrown while the interpreter's error indicator is set;
  \<open>native_error\<close> is any exception of the native core.
\<close>

datatype cpp_exception = error_already_set | native_error string

section \<open>Value bridge\<close>

subsection \<open>OptionalToPythonObject\<close>

text \<open>
  \<^verbatim>\<open>return optional.has_value() ? boost::python::object(*optional) : boost::python::object();\<close>
  A default-constructed \<^verbatim>\<open>boost::python::object\<close> is \<open>None\<close>. The conversion of the
  contained value is the element type's to-Python converter, a parameter here.
\<close>

definition OptionalToPythonObject :: "('a \<Rightarrow> py_object) \<Rightarrow> 'a option \<Rightarrow> py_object" where
  "OptionalToPythonObject to_python optional =
     (if optional \<noteq> None then to_python (the optional) else PyNone)"

subsection \<open>Stream printing\<close>

text \<open>
  A \<^verbatim>\<open>std::ostream\<close> is the text written so far. \<^verbatim>\<open>out << item\<close> for an element type
  appends the element's text, given by a parameter \<open>shw\<close>. A \<^verbatim>\<open>carla::SharedPtr<T>\<close>
  is \<open>'a option\<close>, \<open>None\<close> being the null pointer.
\<close>

type_synonym ostream = string

definition PrintListItem_value :: "('a \<Rightarrow> string) \<Rightarrow> ostream \<Rightarrow> 'a \<Rightarrow> ostream" where
  "PrintListItem_value shw out item = out @ shw item"

definition PrintListItem_SharedPtr :: "('a \<Rightarrow> string) \<Rightarrow> ostream \<Rightarrow> 'a option \<Rightarrow> ostream" where
  "PrintListItem_SharedPtr shw out item =
     (if item = None then out @ ''nullptr'' else out @ shw (the item))"

text \<open>The loop \<^verbatim>\<open>for (++it; it != list.end(); ++it) { out << ", "; PrintListItem_(out, *it); }\<close>.\<close>

fun PrintList_rest :: "(ostream \<Rightarrow> 'a \<Rightarrow> ostream) \<Rightarrow> ostream \<Rightarrow> 'a list \<Rightarrow> ostream" where
  "PrintList_rest print_item out [] = out"
| "PrintList_rest print_item out (x # xs) = PrintList_rest print_item (print_item (out @ '', '') x) xs"

definition PrintList :: "(ostream \<Rightarrow> 'a \<Rightarrow> ostream) \<Rightarrow> ostream \<Rightarrow> 'a list \<Rightarrow> ostream" where
  "PrintList print_item out list =
     (let out1 = out @ ''['';
          out2 = (case list of
                    [] \<Rightarrow> out1
                  | x # rest \<Rightarrow> PrintList_rest print_item (print_item out1 x) rest)
      in out2 @ '']'')"

text \<open>\<^verbatim>\<open>operator<<(std::ostream &, const std::vector<T> &)\<close> is \<open>PrintList\<close>.\<close>

definition print_vector :: "(ostream \<Rightarrow> 'a \<Rightarrow> ostream) \<Rightarrow> ostream \<Rightarrow> 'a list \<Rightarrow> ostream" where
  "print_vector print_item out vector_of_stuff = PrintList print_item out vector_of_stuff"

text \<open>\<^verbatim>\<open>out << "(" << data.first << "," << data.second << ")"\<close>.\<close>

definition print_pair :: "('a \<Rightarrow> string) \<Rightarrow> ('b \<Rightarrow> string) \<Rightarrow> ostream \<Rightarrow> 'a \<times> 'b \<Rightarrow> ostream" where
  "print_pair shw1 shw2 out data = out @ ''('' @ shw1 (fst data) @ '','' @ shw2 (snd data) @ '')''"

text \<open>The text the specification asks for: the elements' texts separated by comma and space.\<close>

fun comma_separated :: "string list \<Rightarrow> string" where
  "comma_separated [] = []"
| "comma_separated [e] = e"
| "comma_separated (e # e' # es) = e @ '', '' @ comma_separated (e' # es)"

definition SharedPtr_text :: "('a \<Rightarrow> string) \<Rightarrow> 'a option \<Rightarrow> string" where
  "SharedPtr_text shw p = (case p of None \<Rightarrow> ''nullptr'' | Some x \<Rightarrow> shw x)"

section \<open>Interpreter state and outcomes of a call\<close>

text \<open>
  The interpreter state the file's functions act on: which thread holds the global
  interpreter lock, the error indicator (set by \<^verbatim>\<open>PyErr_SetString\<close> and by a raising call),
  what \<^verbatim>\<open>PyErr_Print\<close> has written to the interpreter's standard error, the calls made
  to function objects (function number and argument), the scripting objects whose C++
  handle has been deleted, each with the deleting thread, and the control blocks of the
  shared pointers.
\<close>

type_synonym thread = nat

text \<open>
  A \<^verbatim>\<open>carla::SharedPtr\<close> (\<^verbatim>\<open>boost::shared_ptr\<close>) is the index of its control block: the
  object owned, the deleter given at construction and the number of owners. A block whose
  count is 0 has been destroyed.
\<close>

datatype deleter = default_delete | AcquireGILDeleter

record control_block =
  pointee :: py_object
  deleter :: deleter
  use_count :: nat

record interp =
  gil :: "thread option"
  err_indicator :: "py_exception option"
  sys_stderr :: "py_exception list"
  invocations :: "(nat \<times> py_object) list"
  deleted :: "(thread \<times> py_object) list"
  control_blocks :: "control_block list"

text \<open>
  A C++ call returns a value, throws, or does not get that far: \<open>WouldBlock\<close> when the
  thread waits for a lock another thread holds, \<open>NoGIL\<close> when it touches a scripting
  object without holding the lock, \<open>Undefined\<close> when a precondition of a guard is
  broken, \<open>FatalError\<close> when the interpreter aborts, \<open>ProcessExit\<close> when the interpreter
  exits the process.
\<close>

datatype fault = WouldBlock | NoGIL | Undefined | FatalError | ProcessExit

datatype 'a result = Return 'a interp | Throw cpp_exception interp | Fault fault

subsection \<open>PythonLitstToVector\<close>

text \<open>
  \<^verbatim>\<open>boost::python::extract<T>(obj)\<close> converted to \<open>T\<close>: the registered from-Python
  converter of \<open>T\<close> is the parameter \<open>from_python\<close> (\<open>None\<close>: the object is not
  convertible). When no converter applies Boost.Python sets a \<open>TypeError\<close> and throws
  \<open>error_already_set\<close>.
\<close>

definition no_converter :: py_exception where
  "no_converter = PyException PyExc_TypeError
     ''No registered converter was able to produce a C++ rvalue from this Python object''"

definition py_extract :: "(py_object \<Rightarrow> 'a option) \<Rightarrow> py_object \<Rightarrow> interp \<Rightarrow> 'a result" where
  "py_extract from_python obj s =
     (case from_python obj of
        Some v \<Rightarrow> Return v s
      | None \<Rightarrow> Throw error_already_set (s\<lparr>err_indicator := Some no_converter\<rparr>))"

text \<open>\<^verbatim>\<open>input[i]\<close> on a \<^verbatim>\<open>boost::python::list\<close>: an \<open>IndexError\<close> out of range.\<close>

definition getitem :: "py_object list \<Rightarrow> nat \<Rightarrow> interp \<Rightarrow> py_object result" where
  "getitem input i s =
     (if i < length input then Return (input ! i) s
      else Throw error_already_set
             (s\<lparr>err_indicator := Some (PyException PyExc_IndexError ''list index out of range'')\<rparr>))"

text \<open>
  The loop \<^verbatim>\<open>for (ssize_t i = 0; i < list_size; ++i) result.emplace_back(extract<T>(input[i]));\<close>
  with its variables \<open>i\<close> and \<open>result\<close>.
\<close>

function PythonLitstToVector_for ::
  "(py_object \<Rightarrow> 'a option) \<Rightarrow> py_object list \<Rightarrow> nat \<Rightarrow> nat \<Rightarrow> 'a list \<Rightarrow> interp \<Rightarrow> 'a list result" where
  "PythonLitstToVector_for from_python input list_size i result s =
     (if i < list_size then
        (case getitem input i s of
           Return item s1 \<Rightarrow>
             (case py_extract from_python item s1 of
                Return v s2 \<Rightarrow>
                  PythonLitstToVector_for from_python input list_size (Suc i) (result @ [v]) s2
              | Throw e s2 \<Rightarrow> Throw e s2
              | Fault f \<Rightarrow> Fault f)
         | Throw e s1 \<Rightarrow> Throw e s1
         | Fault f \<Rightarrow> Fault f)
      else Return result s)"
  by pat_completeness auto
termination
  by (relation "measure (\<lambda>(from_python, input, list_size, i, result, s). list_size - i)") auto

definition PythonLitstToVector ::
  "(py_object \<Rightarrow> 'a option) \<Rightarrow> py_object list \<Rightarrow> interp \<Rightarrow> 'a list result" where
  "PythonLitstToVector from_python input s =
     PythonLitstToVector_for from_python input (length input) 0 [] s"

subsection \<open>CALL_RETURNING_LIST\<close>

text \<open>
  \<^verbatim>\<open>boost::python::list result; for (auto &&item : self.fn(...)) result.append(item); return result;\<close>
  \<^verbatim>\<open>append\<close> converts the item with the element type's to-Python converter. A native
  method is a function of the receiver and the interpreter state.
\<close>

fun append_items :: "('a \<Rightarrow> py_object) \<Rightarrow> py_object list \<Rightarrow> 'a list \<Rightarrow> py_object list" where
  "append_items to_python result [] = result"
| "append_items to_python result (item # items) =
     append_items to_python (result @ [to_python item]) items"

definition returning_list ::
  "('a \<Rightarrow> py_object) \<Rightarrow> 'a list result \<Rightarrow> py_object list result" where
  "returning_list to_python r =
     (case r of
        Return items s1 \<Rightarrow> Return (append_items to_python [] items) s1
      | Throw e s1 \<Rightarrow> Throw e s1
      | Fault f \<Rightarrow> Fault f)"

definition CALL_RETURNING_LIST ::
  "('a \<Rightarrow> py_object) \<Rightarrow> ('cls \<Rightarrow> interp \<Rightarrow> 'a list result) \<Rightarrow> 'cls \<Rightarrow> interp \<Rightarrow> py_object list result" where
  "CALL_RETURNING_LIST to_python fn self s = returning_list to_python (fn self s)"

definition CALL_RETURNING_LIST_1 ::
  "('a \<Rightarrow> py_object) \<Rightarrow> ('cls \<Rightarrow> 't1 \<Rightarrow> interp \<Rightarrow> 'a list result) \<Rightarrow> 'cls \<Rightarrow> 't1 \<Rightarrow> interp
     \<Rightarrow> py_object list result" where
  "CALL_RETURNING_LIST_1 to_python fn self t1 s = returning_list to_python (fn self t1 s)"

definition CALL_RETURNING_LIST_2 ::
  "('a \<Rightarrow> py_object) \<Rightarrow> ('cls \<Rightarrow> 't1 \<Rightarrow> 't2 \<Rightarrow> interp \<Rightarrow> 'a list result) \<Rightarrow> 'cls \<Rightarrow> 't1 \<Rightarrow> 't2 \<Rightarrow> interp
     \<Rightarrow> py_object list result" where
  "CALL_RETURNING_LIST_2 to_python fn self t1 t2 s = returning_list to_python (fn self t1 t2 s)"

definition CALL_RETURNING_LIST_3 ::
  "('a \<Rightarrow> py_object) \<Rightarrow> ('cls \<Rightarrow> 't1 \<Rightarrow> 't2 \<Rightarrow> 't3 \<Rightarrow> interp \<Rightarrow> 'a list result)
     \<Rightarrow> 'cls \<Rightarrow> 't1 \<Rightarrow> 't2 \<Rightarrow> 't3 \<Rightarrow> interp \<Rightarrow> py_object list result" where
  "CALL_RETURNING_LIST_3 to_python fn self t1 t2 t3 s =
     returning_list to_python (fn self t1 t2 t3 s)"

text \<open>
  Two converters of Boost.Python's built-in ones, for \<^verbatim>\<open>int\<close> elements: an \<open>int\<close>
  object or a \<open>bool\<close> converts to a C++ integer, nothing else does.
\<close>

definition int_to_python :: "int \<Rightarrow> py_object" where
  "int_to_python n = PyInt n"

fun int_from_python :: "py_object \<Rightarrow> int option" where
  "int_from_python (PyInt n) = Some n"
| "int_from_python (PyBool b) = Some (if b then 1 else 0)"
| "int_from_python obj = None"

definition interp0 :: interp where
  "interp0 = \<lparr>gil = Some 0, err_indicator = None, sys_stderr = [], invocations = [], deleted = [],
     control_blocks = []\<rparr>"

section \<open>Lock gate\<close>

text \<open>
  Modelled from the spec: the guards \<^verbatim>\<open>carla::PythonUtil::AcquireGIL\<close> and
  \<^verbatim>\<open>carla::PythonUtil::ReleaseGIL\<close> and the deleter \<^verbatim>\<open>carla::PythonUtil::AcquireGILDeleter\<close>
  are declared in \<^verbatim>\<open>carla/PythonUtil.h\<close>, which is not among the sources. The
  specification gives their contract. The Acquire Guard: the calling thread does not hold
  the Ownership Token; construction waits until the token is acquired, destruction
  releases it. The Release Guard: the calling thread holds the token; construction
  releases it, destruction acquires it again. A thread that would have to wait is
  \<open>WouldBlock\<close>, a broken precondition is \<open>Undefined\<close>.
\<close>

definition AcquireGIL_ctor :: "thread \<Rightarrow> interp \<Rightarrow> unit result" where
  "AcquireGIL_ctor t s =
     (case gil s of
        None \<Rightarrow> Return () (s\<lparr>gil := Some t\<rparr>)
      | Some holder \<Rightarrow> if holder = t then Fault Undefined else Fault WouldBlock)"

definition AcquireGIL_dtor :: "thread \<Rightarrow> interp \<Rightarrow> unit result" where
  "AcquireGIL_dtor t s =
     (if gil s = Some t then Return () (s\<lparr>gil := None\<rparr>) else Fault Undefined)"

definition ReleaseGIL_ctor :: "thread \<Rightarrow> interp \<Rightarrow> unit result" where
  "ReleaseGIL_ctor t s =
     (if gil s = Some t then Return () (s\<lparr>gil := None\<rparr>) else Fault Undefined)"

definition ReleaseGIL_dtor :: "thread \<Rightarrow> interp \<Rightarrow> unit result" where
  "ReleaseGIL_dtor t s =
     (case gil s of
        None \<Rightarrow> Return () (s\<lparr>gil := Some t\<rparr>)
      | Some holder \<Rightarrow> if holder = t then Fault Undefined else Fault WouldBlock)"

text \<open>
  A C++ block \<^verbatim>\<open>{ Guard g; body }\<close>: the guard is constructed, the body runs, and the
  guard's destructor runs when the block is left, by \<^verbatim>\<open>return\<close> or by an exception.
\<close>

definition leave_scope :: "(interp \<Rightarrow> unit result) \<Rightarrow> 'a result \<Rightarrow> 'a result" where
  "leave_scope dtor r =
     (case r of
        Return v s2 \<Rightarrow>
          (case dtor s2 of
             Return u s3 \<Rightarrow> Return v s3
           | Throw e s3 \<Rightarrow> Throw e s3
           | Fault f \<Rightarrow> Fault f)
      | Throw e s2 \<Rightarrow>
          (case dtor s2 of
             Return u s3 \<Rightarrow> Throw e s3
           | Throw e' s3 \<Rightarrow> Fault FatalError
           | Fault f \<Rightarrow> Fault f)
      | Fault f \<Rightarrow> Fault f)"

definition scoped ::
  "(interp \<Rightarrow> unit result) \<Rightarrow> (interp \<Rightarrow> unit result) \<Rightarrow> (interp \<Rightarrow> 'a result) \<Rightarrow> interp \<Rightarrow> 'a result" where
  "scoped ctor dtor body s =
     (case ctor s of
        Return u s1 \<Rightarrow> leave_scope dtor (body s1)
      | Throw e s1 \<Rightarrow> Throw e s1
      | Fault f \<Rightarrow> Fault f)"

subsection \<open>CALL_WITHOUT_GIL\<close>

text \<open>
  \<^verbatim>\<open>+[](cls &self, T1_ t1, ...) { carla::PythonUtil::ReleaseGIL unlock; return self.fn(t1, ...); }\<close>
  run by thread \<open>t\<close>. The \<^verbatim>\<open>CONST_\<close> macros are the same lambdas with a \<^verbatim>\<open>const\<close> receiver.
\<close>

definition CALL_WITHOUT_GIL ::
  "thread \<Rightarrow> ('cls \<Rightarrow> interp \<Rightarrow> 'r result) \<Rightarrow> 'cls \<Rightarrow> interp \<Rightarrow> 'r result" where
  "CALL_WITHOUT_GIL t fn self s =
     scoped (ReleaseGIL_ctor t) (ReleaseGIL_dtor t) (fn self) s"

definition CALL_WITHOUT_GIL_1 ::
  "thread \<Rightarrow> ('cls \<Rightarrow> 't1 \<Rightarrow> interp \<Rightarrow> 'r result) \<Rightarrow> 'cls \<Rightarrow> 't1 \<Rightarrow> interp \<Rightarrow> 'r result" where
  "CALL_WITHOUT_GIL_1 t fn self t1 s =
     scoped (ReleaseGIL_ctor t) (ReleaseGIL_dtor t) (fn self t1) s"

definition CALL_WITHOUT_GIL_2 ::
  "thread \<Rightarrow> ('cls \<Rightarrow> 't1 \<Rightarrow> 't2 \<Rightarrow> interp \<Rightarrow> 'r result) \<Rightarrow> 'cls \<Rightarrow> 't1 \<Rightarrow> 't2 \<Rightarrow> interp \<Rightarrow> 'r result" where
  "CALL_WITHOUT_GIL_2 t fn self t1 t2 s =
     scoped (ReleaseGIL_ctor t) (ReleaseGIL_dtor t) (fn self t1 t2) s"

definition CALL_WITHOUT_GIL_3 ::
  "thread \<Rightarrow> ('cls \<Rightarrow> 't1 \<Rightarrow> 't2 \<Rightarrow> 't3 \<Rightarrow> interp \<Rightarrow> 'r result)
     \<Rightarrow> 'cls \<Rightarrow> 't1 \<Rightarrow> 't2 \<Rightarrow> 't3 \<Rightarrow> interp \<Rightarrow> 'r result" where
  "CALL_WITHOUT_GIL_3 t fn self t1 t2 t3 s =
     scoped (ReleaseGIL_ctor t) (ReleaseGIL_dtor t) (fn self t1 t2 t3) s"

definition CALL_WITHOUT_GIL_4 ::
  "thread \<Rightarrow> ('cls \<Rightarrow> 't1 \<Rightarrow> 't2 \<Rightarrow> 't3 \<Rightarrow> 't4 \<Rightarrow> interp \<Rightarrow> 'r result)
     \<Rightarrow> 'cls \<Rightarrow> 't1 \<Rightarrow> 't2 \<Rightarrow> 't3 \<Rightarrow> 't4 \<Rightarrow> interp \<Rightarrow> 'r result" where
  "CALL_WITHOUT_GIL_4 t fn self t1 t2 t3 t4 s =
     scoped (ReleaseGIL_ctor t) (ReleaseGIL_dtor t) (fn self t1 t2 t3 t4) s"

definition CALL_WITHOUT_GIL_5 ::
  "thread \<Rightarrow> ('cls \<Rightarrow> 't1 \<Rightarrow> 't2 \<Rightarrow> 't3 \<Rightarrow> 't4 \<Rightarrow> 't5 \<Rightarrow> interp \<Rightarrow> 'r result)
     \<Rightarrow> 'cls \<Rightarrow> 't1 \<Rightarrow> 't2 \<Rightarrow> 't3 \<Rightarrow> 't4 \<Rightarrow> 't5 \<Rightarrow> interp \<Rightarrow> 'r result" where
  "CALL_WITHOUT_GIL_5 t fn self t1 t2 t3 t4 t5 s =
     scoped (ReleaseGIL_ctor t) (ReleaseGIL_dtor t) (fn self t1 t2 t3 t4 t5) s"

text \<open>
  \<^verbatim>\<open>auto call = CONST_CALL_WITHOUT_GIL(cls, fn); auto optional = call(self);\<close>
  \<^verbatim>\<open>return optional.has_value() ? boost::python::object(*optional) : boost::python::object();\<close>
\<close>

definition CALL_RETURNING_OPTIONAL_WITHOUT_GIL ::
  "thread \<Rightarrow> ('a \<Rightarrow> py_object) \<Rightarrow> ('cls \<Rightarrow> interp \<Rightarrow> 'a option result) \<Rightarrow> 'cls \<Rightarrow> interp
     \<Rightarrow> py_object result" where
  "CALL_RETURNING_OPTIONAL_WITHOUT_GIL t to_python fn self s =
     (case CALL_WITHOUT_GIL t fn self s of
        Return optional s1 \<Rightarrow>
          Return (if optional \<noteq> None then to_python (the optional) else PyNone) s1
      | Throw e s1 \<Rightarrow> Throw e s1
      | Fault f \<Rightarrow> Fault f)"

section \<open>Callback bridge\<close>

subsection \<open>Primitives of the interpreter and of the shared pointer\<close>

text \<open>
  \<^verbatim>\<open>PyCallable_Check\<close>, \<^verbatim>\<open>PyErr_SetString\<close>, \<^verbatim>\<open>PyErr_Print\<close> and
  \<^verbatim>\<open>boost::python::call\<close> belong to the host runtime, not to this repository. They are
  modelled as their documentation describes them: a call of a function object is recorded
  and either returns or sets the error indicator and throws \<open>error_already_set\<close>;
  \<^verbatim>\<open>PyErr_Print\<close> writes the pending error to the interpreter's standard error and clears
  the indicator, unless the pending error is \<open>SystemExit\<close>: then it prints nothing and exits
  the process; called with no pending error it aborts. A thread that calls into the
  interpreter or deletes an object handle without holding the lock is \<open>NoGIL\<close>.
\<close>

fun PyCallable_Check :: "py_object \<Rightarrow> bool" where
  "PyCallable_Check (PyFunction f) = True"
| "PyCallable_Check obj = False"

definition PyErr_SetString :: "py_exc_type \<Rightarrow> string \<Rightarrow> interp \<Rightarrow> interp" where
  "PyErr_SetString ty msg s = s\<lparr>err_indicator := Some (PyException ty msg)\<rparr>"

definition throw_error_already_set :: "interp \<Rightarrow> 'a result" where
  "throw_error_already_set s = Throw error_already_set s"

definition PyErr_Print :: "thread \<Rightarrow> interp \<Rightarrow> unit result" where
  "PyErr_Print t s =
     (if gil s \<noteq> Some t then Fault NoGIL
      else case err_indicator s of
             None \<Rightarrow> Fault FatalError
           | Some exc \<Rightarrow>
               if exc_type exc = PyExc_SystemExit then Fault ProcessExit
               else Return () (s\<lparr>sys_stderr := sys_stderr s @ [exc], err_indicator := None\<rparr>))"

definition py_call ::
  "(nat \<Rightarrow> py_object \<Rightarrow> py_exception + py_object) \<Rightarrow> thread \<Rightarrow> py_object \<Rightarrow> py_object \<Rightarrow> interp
     \<Rightarrow> unit result" where
  "py_call behaviour t callable arg s =
     (if gil s \<noteq> Some t then Fault NoGIL
      else case callable of
             PyFunction f \<Rightarrow>
               (let s1 = s\<lparr>invocations := invocations s @ [(f, arg)]\<rparr>
                in case behaviour f arg of
                     Inl exc \<Rightarrow> Throw error_already_set (s1\<lparr>err_indicator := Some exc\<rparr>)
                   | Inr v \<Rightarrow> Return () s1)
           | _ \<Rightarrow> Throw error_already_set
                   (s\<lparr>err_indicator := Some (PyException PyExc_TypeError ''object is not callable'')\<rparr>))"

definition delete_py_object :: "thread \<Rightarrow> py_object \<Rightarrow> interp \<Rightarrow> unit result" where
  "delete_py_object t obj s =
     (if gil s = Some t then Return () (s\<lparr>deleted := deleted s @ [(t, obj)]\<rparr>) else Fault NoGIL)"

text \<open>Modelled from the spec: \<^verbatim>\<open>AcquireGILDeleter\<close> performs an Acquire Guard, then releases the object.\<close>

definition AcquireGILDeleter_call :: "thread \<Rightarrow> py_object \<Rightarrow> interp \<Rightarrow> unit result" where
  "AcquireGILDeleter_call t ptr s =
     scoped (AcquireGIL_ctor t) (AcquireGIL_dtor t) (delete_py_object t ptr) s"

definition run_deleter :: "deleter \<Rightarrow> thread \<Rightarrow> py_object \<Rightarrow> interp \<Rightarrow> unit result" where
  "run_deleter d t ptr s =
     (case d of
        AcquireGILDeleter \<Rightarrow> AcquireGILDeleter_call t ptr s
      | default_delete \<Rightarrow> delete_py_object t ptr s)"

definition SharedPtr_new :: "py_object \<Rightarrow> deleter \<Rightarrow> interp \<Rightarrow> nat \<times> interp" where
  "SharedPtr_new obj d s =
     (length (control_blocks s),
      s\<lparr>control_blocks := control_blocks s @ [\<lparr>pointee = obj, deleter = d, use_count = 1\<rparr>]\<rparr>)"

definition SharedPtr_get :: "nat \<Rightarrow> interp \<Rightarrow> py_object option" where
  "SharedPtr_get p s =
     (if p < length (control_blocks s) \<and> 0 < use_count (control_blocks s ! p)
      then Some (pointee (control_blocks s ! p)) else None)"

definition SharedPtr_copy :: "nat \<Rightarrow> interp \<Rightarrow> interp" where
  "SharedPtr_copy p s =
     (if p < length (control_blocks s) \<and> 0 < use_count (control_blocks s ! p)
      then s\<lparr>control_blocks := (control_blocks s)
               [p := (control_blocks s ! p)\<lparr>use_count := Suc (use_count (control_blocks s ! p))\<rparr>]\<rparr>
      else s)"

definition set_use_count :: "nat \<Rightarrow> nat \<Rightarrow> interp \<Rightarrow> interp" where
  "set_use_count p n s =
     s\<lparr>control_blocks := (control_blocks s)[p := (control_blocks s ! p)\<lparr>use_count := n\<rparr>]\<rparr>"

text \<open>An owner goes away: the last one runs the deleter on the object.\<close>

definition SharedPtr_dtor :: "thread \<Rightarrow> nat \<Rightarrow> interp \<Rightarrow> unit result" where
  "SharedPtr_dtor t p s =
     (if p < length (control_blocks s) \<and> 0 < use_count (control_blocks s ! p) then
        (let b = control_blocks s ! p in
         if use_count b = 1 then
           (case run_deleter (deleter b) t (pointee b) s of
              Return u s1 \<Rightarrow> Return () (set_use_count p 0 s1)
            | Throw e s1 \<Rightarrow> Throw e s1
            | Fault f \<Rightarrow> Fault f)
         else Return () (set_use_count p (use_count b - 1) s))
      else Fault Undefined)"

subsection \<open>MakeCallback\<close>

text \<open>
  The lambda \<^verbatim>\<open>[callback=std::move(callback_ptr)](auto message) { ... }\<close> is the value
  \<open>Callback callback_ptr\<close>; \<open>Callback_invoke\<close> is its call operator, run by thread \<open>t\<close>.
\<close>

datatype callback_function = Callback nat

definition MakeCallback :: "py_object \<Rightarrow> interp \<Rightarrow> callback_function result" where
  "MakeCallback callback s =
     (if \<not> PyCallable_Check callback then
        throw_error_already_set
          (PyErr_SetString PyExc_TypeError ''callback argument must be callable!'' s)
      else
        (let (callback_ptr, s1) = SharedPtr_new callback AcquireGILDeleter s
         in Return (Callback callback_ptr) s1))"

text \<open>
  \<^verbatim>\<open>try { py::call<void>(callback->ptr(), py::object(message)); }\<close>
  \<^verbatim>\<open>catch (const py::error_already_set &) { PyErr_Print(); }\<close>
\<close>

definition try_call ::
  "(nat \<Rightarrow> py_object \<Rightarrow> py_exception + py_object) \<Rightarrow> thread \<Rightarrow> py_object \<Rightarrow> py_object \<Rightarrow> interp
     \<Rightarrow> unit result" where
  "try_call behaviour t callable arg s =
     (case py_call behaviour t callable arg s of
        Throw e s1 \<Rightarrow> if e = error_already_set then PyErr_Print t s1 else Throw e s1
      | Return u s1 \<Rightarrow> Return u s1
      | Fault f \<Rightarrow> Fault f)"

definition Callback_invoke ::
  "(nat \<Rightarrow> py_object \<Rightarrow> py_exception + py_object) \<Rightarrow> ('m \<Rightarrow> py_object) \<Rightarrow> thread
     \<Rightarrow> callback_function \<Rightarrow> 'm \<Rightarrow> interp \<Rightarrow> unit result" where
  "Callback_invoke behaviour to_python t cb message s =
     (case cb of Callback callback \<Rightarrow>
        scoped (AcquireGIL_ctor t) (AcquireGIL_dtor t)
          (\<lambda>s1. case SharedPtr_get callback s1 of
                  None \<Rightarrow> Fault Undefined
                | Some callable \<Rightarrow> try_call behaviour t callable (to_python message) s1)
          s)"

text \<open>Destroying the lambda destroys the captured shared pointer.\<close>

definition Callback_destroy :: "thread \<Rightarrow> callback_function \<Rightarrow> interp \<Rightarrow> unit result" where
  "Callback_destroy t cb s = (case cb of Callback callback \<Rightarrow> SharedPtr_dtor t callback s)"

text \<open>
  The callback \<open>cb\<close> is stored in state \<open>s\<close> and owns \<open>callable\<close>: its control block is
  alive, holds \<open>callable\<close> and has the deleter \<open>MakeCallback\<close> gave it.
\<close>

definition stored_callback :: "interp \<Rightarrow> callback_function \<Rightarrow> py_object \<Rightarrow> bool" where
  "stored_callback s cb callable =
     (case cb of Callback p \<Rightarrow>
        p < length (control_blocks s)
        \<and> pointee (control_blocks s ! p) = callable
        \<and> deleter (control_blocks s ! p) = AcquireGILDeleter
        \<and> 0 < use_count (control_blocks s ! p))"

subsection \<open>A scenario\<close>

text \<open>
  Function object 0 raises a \<open>RuntimeError\<close> whatever it is called with; every other
  function object returns \<open>None\<close>. Under \<open>exiting_behaviour\<close> every function object raises
  \<open>SystemExit\<close>, as a callback that calls \<^verbatim>\<open>sys.exit(1)\<close> does. In \<open>interp1\<close> function object 0 has been registered
  with \<open>MakeCallback\<close> and no thread holds the lock. \<open>tick_with_event\<close> is a native method
  during which worker thread 2 delivers the receiver as an event to the registered
  callback; \<open>tick_timeout\<close> is a native method that fails.
\<close>

definition raising_behaviour :: "nat \<Rightarrow> py_object \<Rightarrow> py_exception + py_object" where
  "raising_behaviour f arg =
     (if f = 0 then Inl (PyException PyExc_RuntimeError ''boom'') else Inr PyNone)"


definition interp1 :: interp where
  "interp1 = \<lparr>gil = None, err_indicator = None, sys_stderr = [], invocations = [], deleted = [],
     control_blocks = [\<lparr>pointee = PyFunction 0, deleter = AcquireGILDeleter, use_count = 1\<rparr>]\<rparr>"

definition tick_with_event :: "int \<Rightarrow> interp \<Rightarrow> int result" where
  "tick_with_event self s =
     (case Callback_invoke raising_behaviour int_to_python 2 (Callback 0) self s of
        Return u s1 \<Rightarrow> Return self s1
      | Throw e s1 \<Rightarrow> Throw e s1
      | Fault f \<Rightarrow> Fault f)"

definition tick_timeout :: "int \<Rightarrow> interp \<Rightarrow> int result" where
  "tick_timeout self s = Throw (native_error ''time-out'') s"

section \<open>Module aggregator\<close>

text \<open>
  \<^verbatim>\<open>BOOST_PYTHON_MODULE(libcarla)\<close>. The export functions \<^verbatim>\<open>export_geom()\<close> ... are defined
  in the included binding files, which are not among the sources: what each does to the
  module's namespace, and whether it throws, is the parameter \<open>run\<close>. The state of the
  load records the \<^verbatim>\<open>__path__\<close> attribute of the module scope, whether
  \<^verbatim>\<open>PyEval_InitThreads\<close> was called, the export functions called so far and the
  namespace. The preprocessor symbols the body tests are the build configuration.
\<close>

datatype export_function =
    export_geom | export_control | export_blueprint | export_actor | export_sensor
  | export_sensor_data | export_snapshot | export_weather | export_world | export_map
  | export_client | export_exception | export_commands | export_trafficmanager
  | export_lightmanager | export_ad_rss | export_osm2odr

record build_config =
  PY_MAJOR_VERSION :: nat
  PY_MINOR_VERSION :: nat
  LIBCARLA_RSS_ENABLED :: bool

record 'b load_state =
  path_attr :: "string option"
  init_threads :: bool
  called :: "export_function list"
  namespace :: 'b

datatype 'b load_result = Loaded "'b load_state" | LoadFailed cpp_exception "'b load_state"

text \<open>A call of an export function: it is recorded; \<open>Some e\<close> from \<open>run\<close> is a thrown exception.\<close>

definition call_export ::
  "(export_function \<Rightarrow> 'b \<Rightarrow> cpp_exception option \<times> 'b) \<Rightarrow> export_function \<Rightarrow> 'b load_state
     \<Rightarrow> 'b load_result" where
  "call_export run f m =
     (let (thrown, b) = run f (namespace m);
          m1 = m\<lparr>called := called m @ [f], namespace := b\<rparr>
      in case thrown of None \<Rightarrow> Loaded m1 | Some e \<Rightarrow> LoadFailed e m1)"

text \<open>Two statements in sequence: the second runs when the first has not thrown.\<close>

definition seq ::
  "('b load_state \<Rightarrow> 'b load_result) \<Rightarrow> ('b load_state \<Rightarrow> 'b load_result) \<Rightarrow> 'b load_state
     \<Rightarrow> 'b load_result" where
  "seq first second m =
     (case first m of Loaded m1 \<Rightarrow> second m1 | LoadFailed e m1 \<Rightarrow> LoadFailed e m1)"

definition libcarla_module ::
  "build_config \<Rightarrow> (export_function \<Rightarrow> 'b \<Rightarrow> cpp_exception option \<times> 'b) \<Rightarrow> 'b load_state
     \<Rightarrow> 'b load_result" where
  "libcarla_module cfg run =
     seq (\<lambda>m. Loaded (if PY_MAJOR_VERSION cfg < 3 \<or> PY_MINOR_VERSION cfg < 7
                       then m\<lparr>init_threads := True\<rparr> else m))
    (seq (\<lambda>m. Loaded (m\<lparr>path_attr := Some ''libcarla''\<rparr>))
    (seq (call_export run export_geom)
    (seq (call_export run export_control)
    (seq (call_export run export_blueprint)
    (seq (call_export run export_actor)
    (seq (call_export run export_sensor)
    (seq (call_export run export_sensor_data)
    (seq (call_export run export_snapshot)
    (seq (call_export run export_weather)
    (seq (call_export run export_world)
    (seq (call_export run export_map)
    (seq (call_export run export_client)
    (seq (call_export run export_exception)
    (seq (call_export run export_commands)
    (seq (call_export run export_trafficmanager)
    (seq (call_export run export_lightmanager)
    (seq (if LIBCARLA_RSS_ENABLED cfg then call_export run export_ad_rss else Loaded)
         (call_export run export_osm2odr))))))))))))))))))"

text \<open>
  What the specification asks for: the export functions of all subsystems, the
  safety-layer one only when the feature flag is set; and calling a list of export
  functions one after the other until one throws.
\<close>

definition all_exports :: "build_config \<Rightarrow> export_function list" where
  "all_exports cfg =
     [export_geom, export_control, export_blueprint, export_actor, export_sensor,
      export_sensor_data, export_snapshot, export_weather, export_world, export_map,
      export_client, export_exception, export_commands, export_trafficmanager,
      export_lightmanager]
     @ (if LIBCARLA_RSS_ENABLED cfg then [export_ad_rss] else [])
     @ [export_osm2odr]"

fun call_exports ::
  "(export_function \<Rightarrow> 'b \<Rightarrow> cpp_exception option \<times> 'b) \<Rightarrow> export_function list \<Rightarrow> 'b load_state
     \<Rightarrow> 'b load_result" where
  "call_exports run [] m = Loaded m"
| "call_exports run (f # fs) m =
     (case call_export run f m of
        Loaded m1 \<Rightarrow> call_exports run fs m1
      | LoadFailed e m1 \<Rightarrow> LoadFailed e m1)"

text \<open>
  Two behaviours of the export functions for the scenario: every export adds its name to
  the namespace; or \<^verbatim>\<open>export_sensor\<close> throws and the others add their name.
\<close>

definition run_ok :: "export_function \<Rightarrow> export_function list \<Rightarrow> cpp_exception option \<times> export_function list" where
  "run_ok f b = (None, b @ [f])"

definition run_sensor_fails ::
  "export_function \<Rightarrow> export_function list \<Rightarrow> cpp_exception option \<times> export_function list" where
  "run_sensor_fails f b =
     (if f = export_sensor then (Some (native_error ''export_sensor''), b) else (None, b @ [f]))"

definition load0 :: "export_function list load_state" where
  "load0 = \<lparr>path_attr = None, init_threads = False, called = [], namespace = []\<rparr>"

definition cfg_py3_no_rss :: build_config where
  "cfg_py3_no_rss = \<lparr>PY_MAJOR_VERSION = 3, PY_MINOR_VERSION = 8, LIBCARLA_RSS_ENABLED = False\<rparr>"

definition cfg_py3_rss :: build_config where
  "cfg_py3_rss = \<lparr>PY_MAJOR_VERSION = 3, PY_MINOR_VERSION = 8, LIBCARLA_RSS_ENABLED = True\<rparr>"

section \<open>TimeDurationFromSeconds\<close>

text \<open>
  \<^verbatim>\<open>size_t ms = static_cast<size_t>(1e3 * seconds); return carla::time_duration::milliseconds(ms);\<close>
  A \<^verbatim>\<open>double\<close> is an IEEE 754 binary64 value: \<open>Finite sg m e\<close> is
  \<open>(-1)\<^sup>s\<^sup>g \<sqdot> m \<sqdot> 2\<^sup>e\<close> with a significand \<open>m < 2\<^sup>5\<^sup>3\<close> and \<open>-1074 \<le> e \<le> 971\<close>.
\<close>

datatype double = Finite bool nat int | Infinity bool | NaN

fun valof :: "double \<Rightarrow> real" where
  "valof (Finite sg m e) = (if sg then - 1 else 1) * real m * 2 powr (real_of_int e)"
| "valof d = 0"

fun is_finite :: "double \<Rightarrow> bool" where
  "is_finite (Finite sg m e) = True"
| "is_finite d = False"

definition wf_double :: "double \<Rightarrow> bool" where
  "wf_double d = (case d of Finite sg m e \<Rightarrow> m < 2 ^ 53 \<and> - 1074 \<le> e \<and> e \<le> 971 | _ \<Rightarrow> True)"

text \<open>
  The product of two doubles is the exact product rounded to the nearest double, ties to
  the even significand. \<open>round_to_double sg M e\<close> rounds \<open>\<plusminus> M \<sqdot> 2\<^sup>e\<close>: the significand
  is cut to 53 bits (fewer below the smallest normal exponent), and a result of \<open>2\<^sup>1\<^sup>0\<^sup>2\<^sup>4\<close> or
  more is infinite.
\<close>

fun bit_length :: "nat \<Rightarrow> nat" where
  "bit_length n = (if n = 0 then 0 else Suc (bit_length (n div 2)))"

declare bit_length.simps [simp del]

definition round_half_even :: "nat \<Rightarrow> nat \<Rightarrow> nat" where
  "round_half_even M k =
     (let q = M div 2 ^ k; r = M mod 2 ^ k
      in if 2 ^ k < 2 * r \<or> (2 * r = 2 ^ k \<and> odd q) then q + 1 else q)"

definition round_to_double :: "bool \<Rightarrow> nat \<Rightarrow> int \<Rightarrow> double" where
  "round_to_double sg M e =
     (if M = 0 then Finite sg 0 0
      else
        (let e' = max (e + int (bit_length M) - 53) (- 1074) in
         if e' \<le> e then
           (if 971 < e' then Infinity sg else Finite sg (M * 2 ^ nat (e - e')) e')
         else
           (let q = round_half_even M (nat (e' - e)) in
            if q = 2 ^ 53 then (if 971 < e' + 1 then Infinity sg else Finite sg (2 ^ 52) (e' + 1))
            else (if 971 < e' then Infinity sg else Finite sg q e'))))"

fun fmul :: "double \<Rightarrow> double \<Rightarrow> double" where
  "fmul (Finite s1 m1 e1) (Finite s2 m2 e2) = round_to_double (s1 \<noteq> s2) (m1 * m2) (e1 + e2)"
| "fmul NaN y = NaN"
| "fmul x NaN = NaN"
| "fmul (Infinity s1) (Infinity s2) = Infinity (s1 \<noteq> s2)"
| "fmul (Infinity s1) (Finite s2 m2 e2) = (if m2 = 0 then NaN else Infinity (s1 \<noteq> s2))"
| "fmul (Finite s1 m1 e1) (Infinity s2) = (if m1 = 0 then NaN else Infinity (s1 \<noteq> s2))"

definition double_1e3 :: double where
  "double_1e3 = Finite False 1000 0"

text \<open>
  \<^verbatim>\<open>static_cast<size_t>\<close> of a double drops the fraction. When the truncated value does
  not fit \<^verbatim>\<open>size_t\<close> (64 bits), is negative, or the double is infinite or not a number,
  the conversion is undefined in C++: \<open>None\<close>.
\<close>

definition to_size_t :: "double \<Rightarrow> nat option" where
  "to_size_t d =
     (case d of
        Finite sg m e \<Rightarrow>
          (let t = (if 0 \<le> e then m * 2 ^ nat e else m div 2 ^ nat (- e))
           in if sg \<and> t \<noteq> 0 then None else if t < 2 ^ 64 then Some t else None)
      | _ \<Rightarrow> None)"

text \<open>
  \<^verbatim>\<open>carla::time_duration\<close> is declared in \<^verbatim>\<open>carla/Time.h\<close>, which is not among the sources:
  \<^verbatim>\<open>time_duration::milliseconds(n)\<close> is taken as the duration of \<open>n\<close> whole milliseconds.
\<close>

datatype time_duration = milliseconds nat

definition TimeDurationFromSeconds :: "double \<Rightarrow> time_duration option" where
  "TimeDurationFromSeconds seconds =
     (let ms = to_size_t (fmul double_1e3 seconds)
      in case ms of None \<Rightarrow> None | Some n \<Rightarrow> Some (milliseconds n))"

section \<open>Theorems\<close>

lemma PrintList_rest_text:
  assumes "\<And>out x. print_item out x = out @ text x"
  shows "PrintList_rest print_item (out @ text x) xs = out @ comma_separated (map text (x # xs))"
proof (induction xs arbitrary: out x)
  case Nil
  show ?case by simp
next
  case (Cons y ys)
  have "PrintList_rest print_item (out @ text x) (y # ys)
      = PrintList_rest print_item ((out @ text x @ '', '') @ text y) ys"
    by (simp add: assms)
  also have "\<dots> = (out @ text x @ '', '') @ comma_separated (map text (y # ys))"
    by (rule Cons.IH)
  finally show ?case by simp
qed

lemma PrintList_text:
  assumes "\<And>out x. print_item out x = out @ text x"
  shows "PrintList print_item out xs = out @ ''['' @ comma_separated (map text xs) @ '']''"
proof (cases xs)
  case Nil
  then show ?thesis by (simp add: PrintList_def)
next
  case (Cons x rest)
  have "PrintList_rest print_item (print_item (out @ ''['') x) rest
      = (out @ ''['') @ comma_separated (map text (x # rest))"
    by (simp only: assms) (rule PrintList_rest_text [OF assms])
  then show ?thesis using Cons by (simp add: PrintList_def)
qed

text \<open>
  C7. \<open>OptionalToPythonObject\<close> is a total function of the optional value: an absent
  value gives the scripting \<open>None\<close>, a present value \<open>x\<close> gives the object the converter
  makes of \<open>x\<close>; bridging equal optionals gives equal objects.
\<close>

theorem OptionalToPythonObject_total:
  "OptionalToPythonObject to_python None = PyNone
   \<and> OptionalToPythonObject to_python (Some x) = to_python x
   \<and> (\<exists>!obj. OptionalToPythonObject to_python V = obj)
   \<and> OptionalToPythonObject to_python V = (case V of None \<Rightarrow> PyNone | Some y \<Rightarrow> to_python y)"
  by (simp add: OptionalToPythonObject_def split: option.split)

text \<open>
  C8. A sequence is printed as its elements' texts, separated by comma and space, between
  square brackets; a null shared pointer among the elements is printed as \<open>nullptr\<close>; a
  pair is printed as \<open>(first,second)\<close>.
\<close>

theorem PrintList_format:
  "print_vector (PrintListItem_value shw) out xs = out @ ''['' @ comma_separated (map shw xs) @ '']''
   \<and> print_vector (PrintListItem_SharedPtr shw) out ps
       = out @ ''['' @ comma_separated (map (SharedPtr_text shw) ps) @ '']''
   \<and> SharedPtr_text shw None = ''nullptr''
   \<and> PrintListItem_SharedPtr shw out None = out @ ''nullptr''
   \<and> print_pair shw1 shw2 out (a, b) = out @ ''('' @ shw1 a @ '','' @ shw2 b @ '')''"
proof -
  have v: "print_vector (PrintListItem_value shw) out xs
      = out @ ''['' @ comma_separated (map shw xs) @ '']''"
    unfolding print_vector_def
    by (rule PrintList_text) (simp add: PrintListItem_value_def)
  have p: "print_vector (PrintListItem_SharedPtr shw) out ps
      = out @ ''['' @ comma_separated (map (SharedPtr_text shw) ps) @ '']''"
    unfolding print_vector_def
    by (rule PrintList_text)
       (simp add: PrintListItem_SharedPtr_def SharedPtr_text_def split: option.split)
  show ?thesis
    using v p by (simp add: SharedPtr_text_def PrintListItem_SharedPtr_def print_pair_def)
qed

lemma append_items_map: "append_items to_python result items = result @ map to_python items"
  by (induction items arbitrary: result) simp_all

lemma PythonLitstToVector_for_drop:
  "i \<le> length input \<Longrightarrow>
   PythonLitstToVector_for from_python input (length input) i result s =
     (if list_all (\<lambda>obj. from_python obj \<noteq> None) (drop i input)
      then Return (result @ map (\<lambda>obj. the (from_python obj)) (drop i input)) s
      else Throw error_already_set (s\<lparr>err_indicator := Some no_converter\<rparr>))"
proof (induction "length input - i" arbitrary: i result)
  case 0
  then show ?case by simp
next
  case (Suc n)
  then have lt: "i < length input" by simp
  then have d: "drop i input = input ! i # drop (Suc i) input"
    by (simp add: Cons_nth_drop_Suc)
  show ?case
  proof (cases "from_python (input ! i)")
    case None
    then show ?thesis using lt d by (simp add: getitem_def py_extract_def)
  next
    case (Some v)
    have "n = length input - Suc i" using Suc.hyps(2) by simp
    moreover have "Suc i \<le> length input" using lt by simp
    ultimately have
      "PythonLitstToVector_for from_python input (length input) (Suc i) (result @ [v]) s =
        (if list_all (\<lambda>obj. from_python obj \<noteq> None) (drop (Suc i) input)
         then Return ((result @ [v]) @ map (\<lambda>obj. the (from_python obj)) (drop (Suc i) input)) s
         else Throw error_already_set (s\<lparr>err_indicator := Some no_converter\<rparr>))"
      by (rule Suc.hyps(1))
    then show ?thesis using lt d Some by (simp add: getitem_def py_extract_def)
  qed
qed

lemma PythonLitstToVector_eq:
  "PythonLitstToVector from_python input s =
     (if list_all (\<lambda>obj. from_python obj \<noteq> None) input
      then Return (map (\<lambda>obj. the (from_python obj)) input) s
      else Throw error_already_set (s\<lparr>err_indicator := Some no_converter\<rparr>))"
  unfolding PythonLitstToVector_def
  using PythonLitstToVector_for_drop [of 0 input from_python "[]" s] by simp

text \<open>
  C6. \<open>PythonLitstToVector\<close> extracts the elements of the list by index, in order: when
  every element converts, the result holds the converted elements in the list's order;
  when some element does not convert, the call throws with a \<open>TypeError\<close> set, whatever
  the other elements are, and returns no vector.
\<close>

theorem PythonLitstToVector_extracts_in_order:
  "PythonLitstToVector from_python L s =
     (if list_all (\<lambda>obj. from_python obj \<noteq> None) L
      then Return (map (\<lambda>obj. the (from_python obj)) L) s
      else Throw error_already_set
             (s\<lparr>err_indicator := Some (PyException PyExc_TypeError
                ''No registered converter was able to produce a C++ rvalue from this Python object'')\<rparr>))"
  using PythonLitstToVector_eq [of from_python L s] by (simp add: no_converter_def)

theorem PythonLitstToVector_extracts_in_order_witness:
  "PythonLitstToVector int_from_python [PyInt 3, PyBool True, PyInt (-2)] interp0
      = Return [3, 1, -2] interp0
   \<and> PythonLitstToVector int_from_python [PyInt 3, PyStr ''x'', PyInt 5] interp0
      = Throw error_already_set
          (interp0\<lparr>err_indicator := Some (PyException PyExc_TypeError
             ''No registered converter was able to produce a C++ rvalue from this Python object'')\<rparr>)"
  using PythonLitstToVector_extracts_in_order [of int_from_python "[PyInt 3, PyBool True, PyInt (-2)]" interp0]
        PythonLitstToVector_extracts_in_order [of int_from_python "[PyInt 3, PyStr ''x'', PyInt 5]" interp0]
  by simp

text \<open>
  C5. For an element type whose conversion to a scripting object and back gives the
  element again: the list-returning adapters turn the native method's sequence \<open>S\<close> into
  a scripting list of the same length, and \<open>PythonLitstToVector\<close> turns that list back
  into \<open>S\<close>.
\<close>

theorem list_round_trip:
  assumes "\<forall>x \<in> set S. from_python (to_python x) = Some x"
  shows "returning_list to_python (Return S s) = Return (map to_python S) s
         \<and> length (map to_python S) = length S
         \<and> PythonLitstToVector from_python (map to_python S) s = Return S s
         \<and> (fn self s0 = Return S s \<longrightarrow>
              CALL_RETURNING_LIST to_python fn self s0 = Return (map to_python S) s)
         \<and> (fn1 self t1 s0 = Return S s \<longrightarrow>
              CALL_RETURNING_LIST_1 to_python fn1 self t1 s0 = Return (map to_python S) s)
         \<and> (fn2 self t1 t2 s0 = Return S s \<longrightarrow>
              CALL_RETURNING_LIST_2 to_python fn2 self t1 t2 s0 = Return (map to_python S) s)
         \<and> (fn3 self t1 t2 t3 s0 = Return S s \<longrightarrow>
              CALL_RETURNING_LIST_3 to_python fn3 self t1 t2 t3 s0 = Return (map to_python S) s)"
proof -
  have all: "list_all (\<lambda>obj. from_python obj \<noteq> None) (map to_python S)"
    using assms by (simp add: list_all_iff)
  have inv: "map (\<lambda>obj. the (from_python obj)) (map to_python S) = S"
    using assms by (induction S) simp_all
  have rt: "PythonLitstToVector from_python (map to_python S) s = Return S s"
    using all inv by (simp add: PythonLitstToVector_eq)
  have fwd: "returning_list to_python (Return S s) = Return (map to_python S) s"
    by (simp add: returning_list_def append_items_map)
  show ?thesis
    using rt fwd
    by (simp add: CALL_RETURNING_LIST_def CALL_RETURNING_LIST_1_def CALL_RETURNING_LIST_2_def
        CALL_RETURNING_LIST_3_def)
qed

theorem list_round_trip_witness:
  "int_from_python (int_to_python 4) = Some 4
   \<and> int_from_python (int_to_python (-1)) = Some (-1)
   \<and> CALL_RETURNING_LIST int_to_python (\<lambda>self s. Return self s) [4, -1, 4] interp0
       = Return [PyInt 4, PyInt (-1), PyInt 4] interp0
   \<and> PythonLitstToVector int_from_python [PyInt 4, PyInt (-1), PyInt 4] interp0
       = Return [4, -1, 4] interp0"
  using list_round_trip [where S = "[4, -1, 4]" and from_python = int_from_python
      and to_python = int_to_python and s = interp0 and ?s0.0 = interp0 and self = "[4, -1, 4]"
      and fn = "\<lambda>self s. Return self s" and ?fn1.0 = "\<lambda>self t1 s. Return self s"
      and ?fn2.0 = "\<lambda>self t1 t2 s. Return self s"
      and ?fn3.0 = "\<lambda>self t1 t2 t3 s. Return self s"
      and ?t1.0 = True and ?t2.0 = True and ?t3.0 = True]
  by (simp add: int_to_python_def)

lemma MakeCallback_callable:
  "PyCallable_Check callback \<Longrightarrow>
   MakeCallback callback s =
     Return (Callback (length (control_blocks s)))
       (s\<lparr>control_blocks := control_blocks s @
            [\<lparr>pointee = callback, deleter = AcquireGILDeleter, use_count = 1\<rparr>]\<rparr>)"
  by (simp add: MakeCallback_def SharedPtr_new_def)

lemma MakeCallback_not_callable:
  "\<not> PyCallable_Check callback \<Longrightarrow>
   MakeCallback callback s =
     Throw error_already_set
       (s\<lparr>err_indicator := Some (PyException PyExc_TypeError ''callback argument must be callable!'')\<rparr>)"
  by (simp add: MakeCallback_def throw_error_already_set_def PyErr_SetString_def)

lemma MakeCallback_stored:
  assumes "MakeCallback callback s0 = Return w s1"
  shows "stored_callback s1 w callback \<and> w = Callback (length (control_blocks s0))
         \<and> use_count (control_blocks s1 ! length (control_blocks s0)) = 1"
proof (cases "PyCallable_Check callback")
  case True
  then show ?thesis using assms by (auto simp add: MakeCallback_callable stored_callback_def)
next
  case False
  then show ?thesis using assms by (simp add: MakeCallback_not_callable)
qed

lemma AcquireGILDeleter_call_cases:
  "AcquireGILDeleter_call t ptr s =
     (case gil s of
        None \<Rightarrow> Return () (s\<lparr>deleted := deleted s @ [(t, ptr)]\<rparr>)
      | Some holder \<Rightarrow> if holder = t then Fault Undefined else Fault WouldBlock)"
  by (cases s) (simp add: AcquireGILDeleter_call_def scoped_def leave_scope_def AcquireGIL_ctor_def
      AcquireGIL_dtor_def delete_py_object_def split: option.split)

lemma SharedPtr_dtor_stored:
  assumes "stored_callback s (Callback p) callable"
  shows "SharedPtr_dtor t p s =
     (if use_count (control_blocks s ! p) = 1 then
        (case gil s of
           None \<Rightarrow> Return () (set_use_count p 0 (s\<lparr>deleted := deleted s @ [(t, callable)]\<rparr>))
         | Some holder \<Rightarrow> if holder = t then Fault Undefined else Fault WouldBlock)
      else Return () (set_use_count p (use_count (control_blocks s ! p) - 1) s))"
  using assms
  by (simp add: stored_callback_def SharedPtr_dtor_def run_deleter_def AcquireGILDeleter_call_cases
      Let_def split: option.split)


lemma Callback_destroy_stored:
  assumes "stored_callback s (Callback p) callable"
  shows "Callback_destroy t (Callback p) s \<noteq> Fault NoGIL"
    and "Callback_destroy t (Callback p) s = Return () s' \<Longrightarrow>
           deleted s' = deleted s \<and> 1 < use_count (control_blocks s ! p)
         \<or> deleted s' = deleted s @ [(t, callable)] \<and> gil s = None \<and> gil s' = None"
    and "gil s = None \<Longrightarrow> use_count (control_blocks s ! p) = 1 \<Longrightarrow>
           Callback_destroy t (Callback p) s
             = Return () (set_use_count p 0 (s\<lparr>deleted := deleted s @ [(t, callable)]\<rparr>))"
proof -
  have eq: "Callback_destroy t (Callback p) s =
     (if use_count (control_blocks s ! p) = 1 then
        (case gil s of
           None \<Rightarrow> Return () (set_use_count p 0 (s\<lparr>deleted := deleted s @ [(t, callable)]\<rparr>))
         | Some holder \<Rightarrow> if holder = t then Fault Undefined else Fault WouldBlock)
      else Return () (set_use_count p (use_count (control_blocks s ! p) - 1) s))"
    by (simp add: Callback_destroy_def SharedPtr_dtor_stored [OF assms])
  have pos: "0 < use_count (control_blocks s ! p)"
    using assms by (simp add: stored_callback_def)
  show "Callback_destroy t (Callback p) s \<noteq> Fault NoGIL"
    by (simp add: eq split: option.split)
  show "gil s = None \<Longrightarrow> use_count (control_blocks s ! p) = 1 \<Longrightarrow>
           Callback_destroy t (Callback p) s
             = Return () (set_use_count p 0 (s\<lparr>deleted := deleted s @ [(t, callable)]\<rparr>))"
    by (simp add: eq)
  show "deleted s' = deleted s \<and> 1 < use_count (control_blocks s ! p)
         \<or> deleted s' = deleted s @ [(t, callable)] \<and> gil s = None \<and> gil s' = None"
    if r: "Callback_destroy t (Callback p) s = Return () s'"
  proof (cases "use_count (control_blocks s ! p) = 1")
    case True
    show ?thesis
    proof (cases "gil s")
      case None
      then have "s' = set_use_count p 0 (s\<lparr>deleted := deleted s @ [(t, callable)]\<rparr>)"
        using r True by (simp add: eq)
      then show ?thesis using None by (simp add: set_use_count_def)
    next
      case (Some holder)
      then show ?thesis using r True by (simp add: eq split: if_splits)
    qed
  next
    case False
    then have "s' = set_use_count p (use_count (control_blocks s ! p) - 1) s"
      using r by (simp add: eq)
    moreover have "1 < use_count (control_blocks s ! p)" using False pos by simp
    ultimately show ?thesis by (simp add: set_use_count_def)
  qed
qed

text \<open>
  C3. The wrapper \<open>MakeCallback\<close> returns owns the callable through a shared pointer whose
  deleter is \<open>AcquireGILDeleter\<close>. Whatever thread drops an owner, in whatever state: the
  object is never released by a thread without the lock (no \<open>NoGIL\<close>); when the drop
  returns, either other owners remain and nothing was released, or the callable was
  released by that thread, which took the free lock for it and gave it back; and the last
  owner's drop does return when the lock is free.
\<close>

theorem callback_deleted_under_gil:
  assumes made: "MakeCallback callback s0 = Return w s1"
  shows "stored_callback s1 w callback
     \<and> (\<forall>s. stored_callback s w callback \<longrightarrow>
           Callback_destroy t w s \<noteq> Fault NoGIL
         \<and> (\<forall>s'. Callback_destroy t w s = Return () s' \<longrightarrow>
               deleted s' = deleted s \<and> 1 < use_count (control_blocks s ! length (control_blocks s0))
             \<or> deleted s' = deleted s @ [(t, callback)] \<and> gil s = None \<and> gil s' = None)
         \<and> (gil s = None \<and> use_count (control_blocks s ! length (control_blocks s0)) = 1 \<longrightarrow>
               (\<exists>s'. Callback_destroy t w s = Return () s'
                    \<and> deleted s' = deleted s @ [(t, callback)] \<and> gil s' = None)))"
proof -
  have w: "w = Callback (length (control_blocks s0))"
    using MakeCallback_stored [OF made] by simp
  have st: "stored_callback s1 w callback"
    using MakeCallback_stored [OF made] by (rule conjunct1)
  have "Callback_destroy t w s \<noteq> Fault NoGIL
         \<and> (\<forall>s'. Callback_destroy t w s = Return () s' \<longrightarrow>
               deleted s' = deleted s \<and> 1 < use_count (control_blocks s ! length (control_blocks s0))
             \<or> deleted s' = deleted s @ [(t, callback)] \<and> gil s = None \<and> gil s' = None)
         \<and> (gil s = None \<and> use_count (control_blocks s ! length (control_blocks s0)) = 1 \<longrightarrow>
               (\<exists>s'. Callback_destroy t w s = Return () s'
                    \<and> deleted s' = deleted s @ [(t, callback)] \<and> gil s' = None))"
    if h: "stored_callback s w callback" for s
  proof -
    have h': "stored_callback s (Callback (length (control_blocks s0))) callback"
      using h w by simp
    have c: "gil s = None \<Longrightarrow> use_count (control_blocks s ! length (control_blocks s0)) = 1 \<Longrightarrow>
        \<exists>s'. Callback_destroy t w s = Return () s'
                    \<and> deleted s' = deleted s @ [(t, callback)] \<and> gil s' = None"
      unfolding w using Callback_destroy_stored(3) [OF h', of t]
      by (simp add: set_use_count_def)
    show ?thesis
      using Callback_destroy_stored(1) [OF h', of t] Callback_destroy_stored(2) [OF h', of t] c
      unfolding w by blast
  qed
  then show ?thesis using st by blast
qed

theorem callback_deleted_under_gil_witness:
  "MakeCallback (PyFunction 0) (interp1\<lparr>control_blocks := []\<rparr>) = Return (Callback 0) interp1
   \<and> stored_callback interp1 (Callback 0) (PyFunction 0)
   \<and> gil interp1 = None
   \<and> use_count (control_blocks interp1 ! length (control_blocks (interp1\<lparr>control_blocks := []\<rparr>))) = 1
   \<and> (\<exists>s'. Callback_destroy 5 (Callback 0) interp1 = Return () s'
           \<and> deleted s' = deleted interp1 @ [(5, PyFunction 0)] \<and> gil s' = None)"
proof -
  have made: "MakeCallback (PyFunction 0) (interp1\<lparr>control_blocks := []\<rparr>) = Return (Callback 0) interp1"
    by (simp add: MakeCallback_def SharedPtr_new_def interp1_def)
  have st: "stored_callback interp1 (Callback 0) (PyFunction 0)"
    by (simp add: stored_callback_def interp1_def)
  have free: "gil interp1 = None
     \<and> use_count (control_blocks interp1 ! length (control_blocks (interp1\<lparr>control_blocks := []\<rparr>))) = 1"
    by (simp add: interp1_def)
  from callback_deleted_under_gil [OF made, of 5] st free
  have "\<exists>s'. Callback_destroy 5 (Callback 0) interp1 = Return () s'
           \<and> deleted s' = deleted interp1 @ [(5, PyFunction 0)] \<and> gil s' = None"
    by blast
  then show ?thesis using made st free by simp
qed

text \<open>
  C2. \<open>MakeCallback\<close> on a value that is not callable throws at once, with a \<open>TypeError\<close>
  set, and returns no wrapper; nothing has been stored or called. On a callable value it
  returns a wrapper and sets no error.
\<close>

theorem MakeCallback_checks_callable:
  "(\<not> PyCallable_Check callback \<longrightarrow>
      (\<exists>s'. MakeCallback callback s = Throw error_already_set s'
            \<and> err_indicator s' = Some (PyException PyExc_TypeError ''callback argument must be callable!'')
            \<and> control_blocks s' = control_blocks s \<and> invocations s' = invocations s)
      \<and> (\<forall>w s'. MakeCallback callback s \<noteq> Return w s'))
   \<and> (PyCallable_Check callback \<longrightarrow>
      (\<exists>w s'. MakeCallback callback s = Return w s' \<and> err_indicator s' = err_indicator s
             \<and> invocations s' = invocations s))"
  by (simp add: MakeCallback_callable MakeCallback_not_callable)

theorem MakeCallback_checks_callable_witness:
  "\<not> PyCallable_Check (PyInt 3)
   \<and> (\<exists>s'. MakeCallback (PyInt 3) interp0 = Throw error_already_set s'
          \<and> err_indicator s' = Some (PyException PyExc_TypeError ''callback argument must be callable!''))
   \<and> PyCallable_Check (PyFunction 0)
   \<and> (\<exists>w s'. MakeCallback (PyFunction 0) interp0 = Return w s' \<and> err_indicator s' = err_indicator interp0)"
  using MakeCallback_checks_callable [of "PyInt 3" interp0]
        MakeCallback_checks_callable [of "PyFunction 0" interp0]
  by auto




lemma leave_ReleaseGIL:
  "leave_scope (ReleaseGIL_dtor t) r =
     (case r of
        Return v s2 \<Rightarrow> (case gil s2 of None \<Rightarrow> Return v (s2\<lparr>gil := Some t\<rparr>)
                        | Some holder \<Rightarrow> if holder = t then Fault Undefined else Fault WouldBlock)
      | Throw e s2 \<Rightarrow> (case gil s2 of None \<Rightarrow> Throw e (s2\<lparr>gil := Some t\<rparr>)
                        | Some holder \<Rightarrow> if holder = t then Fault Undefined else Fault WouldBlock)
      | Fault f \<Rightarrow> Fault f)"
  by (simp add: leave_scope_def ReleaseGIL_dtor_def split: result.split option.split)

lemma CALL_WITHOUT_GIL_held:
  "gil s = Some t \<Longrightarrow>
   CALL_WITHOUT_GIL t fn self s = leave_scope (ReleaseGIL_dtor t) (fn self (s\<lparr>gil := None\<rparr>))"
  by (simp add: CALL_WITHOUT_GIL_def scoped_def ReleaseGIL_ctor_def)

lemma CALL_WITHOUT_GIL_exit:
  assumes held: "gil s = Some t"
  shows "CALL_WITHOUT_GIL t fn self s = Return v s3 \<Longrightarrow>
           gil s3 = Some t \<and> (\<exists>s2. fn self (s\<lparr>gil := None\<rparr>) = Return v s2 \<and> gil s2 = None)"
    and "CALL_WITHOUT_GIL t fn self s = Throw e s3 \<Longrightarrow>
           gil s3 = Some t \<and> (\<exists>s2. fn self (s\<lparr>gil := None\<rparr>) = Throw e s2 \<and> gil s2 = None)"
proof -
  let ?r = "fn self (s\<lparr>gil := None\<rparr>)"
  have eq: "CALL_WITHOUT_GIL t fn self s = leave_scope (ReleaseGIL_dtor t) ?r"
    by (rule CALL_WITHOUT_GIL_held [OF held])
  show "gil s3 = Some t \<and> (\<exists>s2. ?r = Return v s2 \<and> gil s2 = None)"
    if "CALL_WITHOUT_GIL t fn self s = Return v s3"
  proof (cases ?r)
    case (Return v' s2)
    then show ?thesis using that
      by (cases "gil s2") (auto simp add: eq leave_ReleaseGIL split: if_splits)
  next
    case (Throw e' s2)
    then show ?thesis using that
      by (cases "gil s2") (auto simp add: eq leave_ReleaseGIL split: if_splits)
  next
    case (Fault f)
    then show ?thesis using that by (simp add: eq leave_ReleaseGIL)
  qed
  show "gil s3 = Some t \<and> (\<exists>s2. ?r = Throw e s2 \<and> gil s2 = None)"
    if "CALL_WITHOUT_GIL t fn self s = Throw e s3"
  proof (cases ?r)
    case (Return v' s2)
    then show ?thesis using that
      by (cases "gil s2") (auto simp add: eq leave_ReleaseGIL split: if_splits)
  next
    case (Throw e' s2)
    then show ?thesis using that
      by (cases "gil s2") (auto simp add: eq leave_ReleaseGIL split: if_splits)
  next
    case (Fault f)
    then show ?thesis using that by (simp add: eq leave_ReleaseGIL)
  qed
qed

lemma CALL_RETURNING_OPTIONAL_WITHOUT_GIL_eq:
  "CALL_RETURNING_OPTIONAL_WITHOUT_GIL t to_python fn self s =
     (case CALL_WITHOUT_GIL t fn self s of
        Return optional s1 \<Rightarrow> Return (OptionalToPythonObject to_python optional) s1
      | Throw e s1 \<Rightarrow> Throw e s1
      | Fault f \<Rightarrow> Fault f)"
  by (simp add: CALL_RETURNING_OPTIONAL_WITHOUT_GIL_def OptionalToPythonObject_def
      split: result.split)

lemma CALL_RETURNING_OPTIONAL_WITHOUT_GIL_exit:
  assumes held: "gil s = Some t"
  shows "CALL_RETURNING_OPTIONAL_WITHOUT_GIL t to_python fn self s = Return v s3 \<Longrightarrow>
           gil s3 = Some t
           \<and> (\<exists>optional s2. fn self (s\<lparr>gil := None\<rparr>) = Return optional s2 \<and> gil s2 = None
                  \<and> v = OptionalToPythonObject to_python optional)"
    and "CALL_RETURNING_OPTIONAL_WITHOUT_GIL t to_python fn self s = Throw e s3 \<Longrightarrow>
           gil s3 = Some t \<and> (\<exists>s2. fn self (s\<lparr>gil := None\<rparr>) = Throw e s2 \<and> gil s2 = None)"
proof -
  show "gil s3 = Some t
           \<and> (\<exists>optional s2. fn self (s\<lparr>gil := None\<rparr>) = Return optional s2 \<and> gil s2 = None
                  \<and> v = OptionalToPythonObject to_python optional)"
    if r: "CALL_RETURNING_OPTIONAL_WITHOUT_GIL t to_python fn self s = Return v s3"
  proof (cases "CALL_WITHOUT_GIL t fn self s")
    case (Return optional s')
    then have "s' = s3" and "v = OptionalToPythonObject to_python optional"
      using r by (simp_all add: CALL_RETURNING_OPTIONAL_WITHOUT_GIL_eq)
    then show ?thesis using CALL_WITHOUT_GIL_exit(1) [OF held Return] by auto
  next
    case (Throw e' s')
    then show ?thesis using r by (simp add: CALL_RETURNING_OPTIONAL_WITHOUT_GIL_eq)
  next
    case (Fault f)
    then show ?thesis using r by (simp add: CALL_RETURNING_OPTIONAL_WITHOUT_GIL_eq)
  qed
  show "gil s3 = Some t \<and> (\<exists>s2. fn self (s\<lparr>gil := None\<rparr>) = Throw e s2 \<and> gil s2 = None)"
    if r: "CALL_RETURNING_OPTIONAL_WITHOUT_GIL t to_python fn self s = Throw e s3"
  proof (cases "CALL_WITHOUT_GIL t fn self s")
    case (Return optional s')
    then show ?thesis using r by (simp add: CALL_RETURNING_OPTIONAL_WITHOUT_GIL_eq)
  next
    case (Throw e' s')
    then have "s' = s3" and "e' = e"
      using r by (simp_all add: CALL_RETURNING_OPTIONAL_WITHOUT_GIL_eq)
    then show ?thesis using CALL_WITHOUT_GIL_exit(2) [OF held Throw] by auto
  next
    case (Fault f)
    then show ?thesis using r by (simp add: CALL_RETURNING_OPTIONAL_WITHOUT_GIL_eq)
  qed
qed

text \<open>
  C4. A thread \<open>t\<close> that holds the lock calls an adapter of the \<open>CALL_WITHOUT_GIL\<close>
  family. The lock is released before the native method runs: the method runs in the state
  with the lock free, where any second thread can acquire it. When the native method
  returns or throws with the lock free, the adapter returns the same value or throws the
  same exception, with the lock held by \<open>t\<close> again; and whenever the adapter returns or
  throws, \<open>t\<close> holds the lock and the native method has returned or thrown just that, having
  run with the lock free. The same holds for the adapter that returns an optional, whose
  value is the bridged optional. The adapters with arguments are the same adapter around
  the method applied to its arguments.
\<close>

theorem CALL_WITHOUT_GIL_lock_gate:
  assumes held: "gil s = Some t"
  shows "ReleaseGIL_ctor t s = Return () (s\<lparr>gil := None\<rparr>)
     \<and> (\<forall>t2. t2 \<noteq> t \<longrightarrow> AcquireGIL_ctor t2 (s\<lparr>gil := None\<rparr>) = Return () (s\<lparr>gil := Some t2\<rparr>))
     \<and> (\<forall>v s2. fn self (s\<lparr>gil := None\<rparr>) = Return v s2 \<and> gil s2 = None \<longrightarrow>
           CALL_WITHOUT_GIL t fn self s = Return v (s2\<lparr>gil := Some t\<rparr>))
     \<and> (\<forall>e s2. fn self (s\<lparr>gil := None\<rparr>) = Throw e s2 \<and> gil s2 = None \<longrightarrow>
           CALL_WITHOUT_GIL t fn self s = Throw e (s2\<lparr>gil := Some t\<rparr>))
     \<and> (\<forall>v s3. CALL_WITHOUT_GIL t fn self s = Return v s3 \<longrightarrow>
           gil s3 = Some t \<and> (\<exists>s2. fn self (s\<lparr>gil := None\<rparr>) = Return v s2 \<and> gil s2 = None))
     \<and> (\<forall>e s3. CALL_WITHOUT_GIL t fn self s = Throw e s3 \<longrightarrow>
           gil s3 = Some t \<and> (\<exists>s2. fn self (s\<lparr>gil := None\<rparr>) = Throw e s2 \<and> gil s2 = None))
     \<and> (\<forall>optional s2. fno selfo (s\<lparr>gil := None\<rparr>) = Return optional s2 \<and> gil s2 = None \<longrightarrow>
           CALL_RETURNING_OPTIONAL_WITHOUT_GIL t to_python fno selfo s
             = Return (OptionalToPythonObject to_python optional) (s2\<lparr>gil := Some t\<rparr>))
     \<and> (\<forall>e s2. fno selfo (s\<lparr>gil := None\<rparr>) = Throw e s2 \<and> gil s2 = None \<longrightarrow>
           CALL_RETURNING_OPTIONAL_WITHOUT_GIL t to_python fno selfo s = Throw e (s2\<lparr>gil := Some t\<rparr>))
     \<and> (\<forall>v s3. CALL_RETURNING_OPTIONAL_WITHOUT_GIL t to_python fno selfo s = Return v s3 \<longrightarrow>
           gil s3 = Some t
           \<and> (\<exists>optional s2. fno selfo (s\<lparr>gil := None\<rparr>) = Return optional s2 \<and> gil s2 = None
                  \<and> v = OptionalToPythonObject to_python optional))
     \<and> (\<forall>e s3. CALL_RETURNING_OPTIONAL_WITHOUT_GIL t to_python fno selfo s = Throw e s3 \<longrightarrow>
           gil s3 = Some t
           \<and> (\<exists>s2. fno selfo (s\<lparr>gil := None\<rparr>) = Throw e s2 \<and> gil s2 = None))
     \<and> CALL_WITHOUT_GIL_1 t fn1 self1 a1 s = CALL_WITHOUT_GIL t (\<lambda>self. fn1 self a1) self1 s
     \<and> CALL_WITHOUT_GIL_2 t fn2 self2 a1 a2 s = CALL_WITHOUT_GIL t (\<lambda>self. fn2 self a1 a2) self2 s
     \<and> CALL_WITHOUT_GIL_3 t fn3 self3 a1 a2 a3 s = CALL_WITHOUT_GIL t (\<lambda>self. fn3 self a1 a2 a3) self3 s
     \<and> CALL_WITHOUT_GIL_4 t fn4 self4 a1 a2 a3 a4 s
         = CALL_WITHOUT_GIL t (\<lambda>self. fn4 self a1 a2 a3 a4) self4 s
     \<and> CALL_WITHOUT_GIL_5 t fn5 self5 a1 a2 a3 a4 a5 s
         = CALL_WITHOUT_GIL t (\<lambda>self. fn5 self a1 a2 a3 a4 a5) self5 s"
proof (intro conjI allI impI)
  show "ReleaseGIL_ctor t s = Return () (s\<lparr>gil := None\<rparr>)"
    using held by (simp add: ReleaseGIL_ctor_def)
  show "AcquireGIL_ctor t2 (s\<lparr>gil := None\<rparr>) = Return () (s\<lparr>gil := Some t2\<rparr>)" for t2
    by (simp add: AcquireGIL_ctor_def)
  show "CALL_WITHOUT_GIL t fn self s = Return v (s2\<lparr>gil := Some t\<rparr>)"
    if "fn self (s\<lparr>gil := None\<rparr>) = Return v s2 \<and> gil s2 = None" for v s2
    using that by (simp add: CALL_WITHOUT_GIL_held [OF held] leave_ReleaseGIL)
  show "CALL_WITHOUT_GIL t fn self s = Throw e (s2\<lparr>gil := Some t\<rparr>)"
    if "fn self (s\<lparr>gil := None\<rparr>) = Throw e s2 \<and> gil s2 = None" for e s2
    using that by (simp add: CALL_WITHOUT_GIL_held [OF held] leave_ReleaseGIL)
  show "gil s3 = Some t" if "CALL_WITHOUT_GIL t fn self s = Return v s3" for v s3
    using CALL_WITHOUT_GIL_exit(1) [OF held that] by simp
  show "\<exists>s2. fn self (s\<lparr>gil := None\<rparr>) = Return v s2 \<and> gil s2 = None"
    if "CALL_WITHOUT_GIL t fn self s = Return v s3" for v s3
    using CALL_WITHOUT_GIL_exit(1) [OF held that] by simp
  show "gil s3 = Some t" if "CALL_WITHOUT_GIL t fn self s = Throw e s3" for e s3
    using CALL_WITHOUT_GIL_exit(2) [OF held that] by simp
  show "\<exists>s2. fn self (s\<lparr>gil := None\<rparr>) = Throw e s2 \<and> gil s2 = None"
    if "CALL_WITHOUT_GIL t fn self s = Throw e s3" for e s3
    using CALL_WITHOUT_GIL_exit(2) [OF held that] by simp
  show "CALL_RETURNING_OPTIONAL_WITHOUT_GIL t to_python fno selfo s
             = Return (OptionalToPythonObject to_python optional) (s2\<lparr>gil := Some t\<rparr>)"
    if "fno selfo (s\<lparr>gil := None\<rparr>) = Return optional s2 \<and> gil s2 = None" for optional s2
    using that
    by (simp add: CALL_RETURNING_OPTIONAL_WITHOUT_GIL_eq CALL_WITHOUT_GIL_held [OF held]
        leave_ReleaseGIL)
  show "CALL_RETURNING_OPTIONAL_WITHOUT_GIL t to_python fno selfo s = Throw e (s2\<lparr>gil := Some t\<rparr>)"
    if "fno selfo (s\<lparr>gil := None\<rparr>) = Throw e s2 \<and> gil s2 = None" for e s2
    using that
    by (simp add: CALL_RETURNING_OPTIONAL_WITHOUT_GIL_eq CALL_WITHOUT_GIL_held [OF held]
        leave_ReleaseGIL)
  show "gil s3 = Some t"
    if "CALL_RETURNING_OPTIONAL_WITHOUT_GIL t to_python fno selfo s = Return v s3" for v s3
    using CALL_RETURNING_OPTIONAL_WITHOUT_GIL_exit(1) [OF held that] by simp
  show "\<exists>optional s2. fno selfo (s\<lparr>gil := None\<rparr>) = Return optional s2 \<and> gil s2 = None
                  \<and> v = OptionalToPythonObject to_python optional"
    if "CALL_RETURNING_OPTIONAL_WITHOUT_GIL t to_python fno selfo s = Return v s3" for v s3
    using CALL_RETURNING_OPTIONAL_WITHOUT_GIL_exit(1) [OF held that] by simp
  show "gil s3 = Some t"
    if "CALL_RETURNING_OPTIONAL_WITHOUT_GIL t to_python fno selfo s = Throw e s3" for e s3
    using CALL_RETURNING_OPTIONAL_WITHOUT_GIL_exit(2) [OF held that] by simp
  show "\<exists>s2. fno selfo (s\<lparr>gil := None\<rparr>) = Throw e s2 \<and> gil s2 = None"
    if "CALL_RETURNING_OPTIONAL_WITHOUT_GIL t to_python fno selfo s = Throw e s3" for e s3
    using CALL_RETURNING_OPTIONAL_WITHOUT_GIL_exit(2) [OF held that] by simp
  show "CALL_WITHOUT_GIL_1 t fn1 self1 a1 s = CALL_WITHOUT_GIL t (\<lambda>self. fn1 self a1) self1 s"
    by (simp add: CALL_WITHOUT_GIL_def CALL_WITHOUT_GIL_1_def)
  show "CALL_WITHOUT_GIL_2 t fn2 self2 a1 a2 s = CALL_WITHOUT_GIL t (\<lambda>self. fn2 self a1 a2) self2 s"
    by (simp add: CALL_WITHOUT_GIL_def CALL_WITHOUT_GIL_2_def)
  show "CALL_WITHOUT_GIL_3 t fn3 self3 a1 a2 a3 s = CALL_WITHOUT_GIL t (\<lambda>self. fn3 self a1 a2 a3) self3 s"
    by (simp add: CALL_WITHOUT_GIL_def CALL_WITHOUT_GIL_3_def)
  show "CALL_WITHOUT_GIL_4 t fn4 self4 a1 a2 a3 a4 s
         = CALL_WITHOUT_GIL t (\<lambda>self. fn4 self a1 a2 a3 a4) self4 s"
    by (simp add: CALL_WITHOUT_GIL_def CALL_WITHOUT_GIL_4_def)
  show "CALL_WITHOUT_GIL_5 t fn5 self5 a1 a2 a3 a4 a5 s
         = CALL_WITHOUT_GIL t (\<lambda>self. fn5 self a1 a2 a3 a4 a5) self5 s"
    by (simp add: CALL_WITHOUT_GIL_def CALL_WITHOUT_GIL_5_def)
qed

theorem CALL_WITHOUT_GIL_lock_gate_witness:
  "gil (interp1\<lparr>gil := Some 0\<rparr>) = Some 0
   \<and> (\<exists>s2. tick_with_event 42 interp1 = Return 42 s2 \<and> gil s2 = None
          \<and> invocations s2 = [(0, PyInt 42)]
          \<and> CALL_WITHOUT_GIL 0 tick_with_event 42 (interp1\<lparr>gil := Some 0\<rparr>)
              = Return 42 (s2\<lparr>gil := Some 0\<rparr>))
   \<and> CALL_WITHOUT_GIL 0 tick_timeout 42 (interp1\<lparr>gil := Some 0\<rparr>)
       = Throw (native_error ''time-out'') (interp1\<lparr>gil := Some 0\<rparr>)
   \<and> CALL_RETURNING_OPTIONAL_WITHOUT_GIL 0 int_to_python (\<lambda>self s. Return (Some self) s) 42
         (interp1\<lparr>gil := Some 0\<rparr>)
       = Return (PyInt 42) (interp1\<lparr>gil := Some 0\<rparr>)"
proof -
  let ?s = "interp1\<lparr>gil := Some 0\<rparr>"
  have held: "gil ?s = Some 0" by simp
  have same: "?s\<lparr>gil := None\<rparr> = interp1" by (simp add: interp1_def)
  obtain s2 where run: "tick_with_event 42 interp1 = Return 42 s2" and free: "gil s2 = None"
    and inv: "invocations s2 = [(0, PyInt 42)]"
    by (simp add: tick_with_event_def Callback_invoke_def scoped_def leave_scope_def
        AcquireGIL_ctor_def AcquireGIL_dtor_def try_call_def py_call_def PyErr_Print_def
        SharedPtr_get_def raising_behaviour_def int_to_python_def interp1_def)
  have out: "tick_timeout 42 interp1 = Throw (native_error ''time-out'') interp1 \<and> gil interp1 = None"
    by (simp add: tick_timeout_def interp1_def)
  have a: "CALL_WITHOUT_GIL 0 tick_with_event 42 ?s = Return 42 (s2\<lparr>gil := Some 0\<rparr>)"
    using CALL_WITHOUT_GIL_lock_gate [where s = ?s and t = 0 and fn = tick_with_event
        and self = 42, OF held, THEN conjunct2, THEN conjunct2, THEN conjunct1] run free
    by (simp add: same)
  have b: "CALL_WITHOUT_GIL 0 tick_timeout 42 ?s = Throw (native_error ''time-out'') (interp1\<lparr>gil := Some 0\<rparr>)"
    using CALL_WITHOUT_GIL_lock_gate [where s = ?s and t = 0 and fn = tick_timeout
        and self = 42, OF held, THEN conjunct2, THEN conjunct2, THEN conjunct2, THEN conjunct1] out
    by (simp add: same)
  have c: "CALL_RETURNING_OPTIONAL_WITHOUT_GIL 0 int_to_python (\<lambda>self s. Return (Some self) s) 42 ?s
       = Return (PyInt 42) (interp1\<lparr>gil := Some 0\<rparr>)"
    using CALL_WITHOUT_GIL_lock_gate [where s = ?s and t = 0 and to_python = int_to_python
        and fno = "\<lambda>self s. Return (Some self) s" and selfo = 42, OF held,
        THEN conjunct2, THEN conjunct2, THEN conjunct2, THEN conjunct2, THEN conjunct2,
        THEN conjunct2, THEN conjunct1] out
    by (simp add: same OptionalToPythonObject_def int_to_python_def)
  show ?thesis using held run free inv a b c by auto
qed

lemma call_exports_Cons_seq: "call_exports run (f # fs) = seq (call_export run f) (call_exports run fs)"
  by (rule ext) (simp add: seq_def)

lemma call_exports_Nil_Loaded: "call_exports run [] = Loaded"
  by (rule ext) simp

lemma seq_Loaded_right: "seq first Loaded = first"
  by (rule ext) (simp add: seq_def split: load_result.split)

lemma seq_Loaded_left: "seq Loaded second = second"
  by (rule ext) (simp add: seq_def)

lemma libcarla_module_call_exports:
  "libcarla_module cfg run m =
     call_exports run (all_exports cfg)
       ((if PY_MAJOR_VERSION cfg < 3 \<or> PY_MINOR_VERSION cfg < 7
         then m\<lparr>init_threads := True\<rparr> else m)\<lparr>path_attr := Some ''libcarla''\<rparr>)"
proof -
  have "call_exports run (all_exports cfg) =
    (seq (call_export run export_geom)
    (seq (call_export run export_control)
    (seq (call_export run export_blueprint)
    (seq (call_export run export_actor)
    (seq (call_export run export_sensor)
    (seq (call_export run export_sensor_data)
    (seq (call_export run export_snapshot)
    (seq (call_export run export_weather)
    (seq (call_export run export_world)
    (seq (call_export run export_map)
    (seq (call_export run export_client)
    (seq (call_export run export_exception)
    (seq (call_export run export_commands)
    (seq (call_export run export_trafficmanager)
    (seq (call_export run export_lightmanager)
    (seq (if LIBCARLA_RSS_ENABLED cfg then call_export run export_ad_rss else Loaded)
         (call_export run export_osm2odr)))))))))))))))))"
    by (simp add: all_exports_def call_exports_Cons_seq call_exports_Nil_Loaded seq_Loaded_right
        seq_Loaded_left del: call_exports.simps)
  then show ?thesis
    by (simp only: libcarla_module_def) (simp add: seq_def)
qed

lemma call_export_path: 
  "call_export run f m = Loaded m1 \<Longrightarrow> path_attr m1 = path_attr m \<and> called m1 = called m @ [f]"
  "call_export run f m = LoadFailed e m1 \<Longrightarrow>
     path_attr m1 = path_attr m \<and> called m1 = called m @ [f] \<and> fst (run f (namespace m)) = Some e"
  by (auto simp add: call_export_def Let_def split: prod.splits option.splits)

lemma call_exports_Loaded:
  "call_exports run fs m = Loaded m1 \<Longrightarrow> path_attr m1 = path_attr m \<and> called m1 = called m @ fs"
proof (induction fs arbitrary: m)
  case Nil
  then show ?case by simp
next
  case (Cons f fs)
  then obtain m' where c: "call_export run f m = Loaded m'" and r: "call_exports run fs m' = Loaded m1"
    by (auto split: load_result.splits)
  show ?case using call_export_path(1) [OF c] Cons.IH [OF r] by simp
qed

lemma call_exports_LoadFailed:
  "call_exports run fs m = LoadFailed e m1 \<Longrightarrow>
   path_attr m1 = path_attr m
   \<and> (\<exists>before failing rest b. fs = before @ failing # rest \<and> called m1 = called m @ before @ [failing]
        \<and> fst (run failing b) = Some e)"
proof (induction fs arbitrary: m)
  case Nil
  then show ?case by simp
next
  case (Cons f fs)
  show ?case
  proof (cases "call_export run f m")
    case (Loaded m')
    then have r: "call_exports run fs m' = LoadFailed e m1" using Cons.prems by simp
    from Cons.IH [OF r] obtain before failing rest b where
      p: "path_attr m1 = path_attr m'" and fs: "fs = before @ failing # rest"
      and c: "called m1 = called m' @ before @ [failing]" and t: "fst (run failing b) = Some e"
      by blast
    have "f # fs = (f # before) @ failing # rest" using fs by simp
    moreover have "called m1 = called m @ (f # before) @ [failing]"
      using c call_export_path(1) [OF Loaded] by simp
    ultimately show ?thesis using p t call_export_path(1) [OF Loaded] by metis
  next
    case (LoadFailed e' m')
    then have same: "e' = e" "m' = m1" using Cons.prems by simp_all
    have "f # fs = [] @ f # fs" by simp
    moreover have "called m1 = called m @ [] @ [f]"
      using call_export_path(2) [OF LoadFailed] same by simp
    moreover have "fst (run f (namespace m)) = Some e"
      using call_export_path(2) [OF LoadFailed] same by simp
    ultimately show ?thesis using call_export_path(2) [OF LoadFailed] same by metis
  qed
qed

lemma call_exports_Loaded_returned:
  "call_exports run fs m = Loaded m1 \<Longrightarrow> f \<in> set fs \<Longrightarrow> \<exists>b. fst (run f b) = None"
proof (induction fs arbitrary: m)
  case Nil
  then show ?case by simp
next
  case (Cons g fs)
  then obtain m' where c: "call_export run g m = Loaded m'" and r: "call_exports run fs m' = Loaded m1"
    by (auto split: load_result.splits)
  show ?case
  proof (cases "f = g")
    case True
    have "fst (run g (namespace m)) = None"
      using c by (auto simp add: call_export_def Let_def split: prod.splits option.splits)
    then show ?thesis using True by blast
  next
    case False
    then have "f \<in> set fs" using Cons.prems(2) by simp
    then show ?thesis using Cons.IH [OF r] by simp
  qed
qed

lemma call_exports_fails_at:
  assumes "\<forall>g \<in> set before. \<forall>b. fst (run g b) = None" and "\<forall>b. fst (run f b) = Some e"
  shows "\<exists>m1. call_exports run (before @ f # rest) m = LoadFailed e m1
            \<and> called m1 = called m @ before @ [f]"
  using assms(1)
proof (induction before arbitrary: m)
  case Nil
  have "fst (run f (namespace m)) = Some e" using assms(2) by simp
  then show ?case
    by (cases "run f (namespace m)") (simp add: call_export_def)
next
  case (Cons g before)
  have "fst (run g (namespace m)) = None" using Cons.prems by simp
  then obtain m' where c: "call_export run g m = Loaded m'"
    by (cases "run g (namespace m)") (simp add: call_export_def)
  have "\<forall>g \<in> set before. \<forall>b. fst (run g b) = None" using Cons.prems by simp
  from Cons.IH [OF this, of m'] obtain m1 where
    "call_exports run (before @ f # rest) m' = LoadFailed e m1"
    "called m1 = called m' @ before @ [f]" by blast
  then show ?case using c call_export_path(1) [OF c] by simp
qed

lemma call_exports_no_throw:
  "(\<And>f b. fst (run f b) = None) \<Longrightarrow> \<exists>m1. call_exports run fs m = Loaded m1"
proof (induction fs arbitrary: m)
  case Nil
  then show ?case by simp
next
  case (Cons f fs)
  have "fst (run f (namespace m)) = None" by (rule Cons.prems)
  then obtain m' where "call_export run f m = Loaded m'"
    by (cases "run f (namespace m)") (simp add: call_export_def)
  then show ?case using Cons.IH [OF Cons.prems, of m'] by simp
qed

text \<open>
  C9. The entry point sets \<open>__path__\<close> to \<open>libcarla\<close> and calls the export functions of
  all subsystems, the safety-layer one exactly when the feature flag is set. When it
  returns, every one of them has been called, in the order of the source. When the load
  fails, it fails with the exception of an export that threw, and the export functions
  after that one have not been called. When no export throws, the entry point returns.
  When some export throws, the load fails: with the exception of the first export that
  throws, that export being the last one called. Altogether the entry point is the
  one-after-the-other call of these export functions that stops at the first throw.
\<close>

theorem libcarla_module_exports_all:
  "(\<forall>m1. libcarla_module cfg run m = Loaded m1 \<longrightarrow>
        path_attr m1 = Some ''libcarla'' \<and> called m1 = called m @ all_exports cfg)
   \<and> (\<forall>e m1. libcarla_module cfg run m = LoadFailed e m1 \<longrightarrow>
        path_attr m1 = Some ''libcarla''
        \<and> (\<exists>before failing rest b. all_exports cfg = before @ failing # rest
              \<and> called m1 = called m @ before @ [failing] \<and> fst (run failing b) = Some e))
   \<and> ((\<forall>f b. fst (run f b) = None) \<longrightarrow> (\<exists>m1. libcarla_module cfg run m = Loaded m1))
   \<and> (\<forall>f. f \<in> set (all_exports cfg) \<and> (\<forall>b. fst (run f b) \<noteq> None) \<longrightarrow>
        (\<exists>e m1. libcarla_module cfg run m = LoadFailed e m1))
   \<and> (\<forall>before f rest e.
        all_exports cfg = before @ f # rest
        \<and> (\<forall>g \<in> set before. \<forall>b. fst (run g b) = None) \<and> (\<forall>b. fst (run f b) = Some e) \<longrightarrow>
        (\<exists>m1. libcarla_module cfg run m = LoadFailed e m1 \<and> called m1 = called m @ before @ [f]))
   \<and> libcarla_module cfg run m =
        call_exports run (all_exports cfg)
          ((if PY_MAJOR_VERSION cfg < 3 \<or> PY_MINOR_VERSION cfg < 7
            then m\<lparr>init_threads := True\<rparr> else m)\<lparr>path_attr := Some ''libcarla''\<rparr>)
   \<and> (export_ad_rss \<in> set (all_exports cfg) \<longleftrightarrow> LIBCARLA_RSS_ENABLED cfg)
   \<and> {export_geom, export_control, export_blueprint, export_actor, export_sensor,
       export_sensor_data, export_snapshot, export_weather, export_world, export_map,
       export_client, export_exception, export_commands, export_trafficmanager,
       export_lightmanager, export_osm2odr} \<subseteq> set (all_exports cfg)"
proof (intro conjI allI impI)
  let ?m0 = "(if PY_MAJOR_VERSION cfg < 3 \<or> PY_MINOR_VERSION cfg < 7
         then m\<lparr>init_threads := True\<rparr> else m)\<lparr>path_attr := Some ''libcarla''\<rparr>"
  have m0: "path_attr ?m0 = Some ''libcarla''" "called ?m0 = called m" by simp_all
  note eq = libcarla_module_call_exports [of cfg run m]
  show "path_attr m1 = Some ''libcarla''" if "libcarla_module cfg run m = Loaded m1" for m1
    using call_exports_Loaded [of run "all_exports cfg" ?m0 m1] that eq m0 by simp
  show "called m1 = called m @ all_exports cfg" if "libcarla_module cfg run m = Loaded m1" for m1
    using call_exports_Loaded [of run "all_exports cfg" ?m0 m1] that eq m0 by simp
  show "path_attr m1 = Some ''libcarla''" if "libcarla_module cfg run m = LoadFailed e m1" for e m1
    using call_exports_LoadFailed [of run "all_exports cfg" ?m0 e m1] that eq m0 by simp
  show "\<exists>before failing rest b. all_exports cfg = before @ failing # rest
              \<and> called m1 = called m @ before @ [failing] \<and> fst (run failing b) = Some e"
    if "libcarla_module cfg run m = LoadFailed e m1" for e m1
    using call_exports_LoadFailed [of run "all_exports cfg" ?m0 e m1] that eq m0 by simp
  show "\<exists>m1. libcarla_module cfg run m = Loaded m1" if "\<forall>f b. fst (run f b) = None"
    using call_exports_no_throw [of run "all_exports cfg" ?m0] that eq by simp
  show "\<exists>e m1. libcarla_module cfg run m = LoadFailed e m1"
    if h: "f \<in> set (all_exports cfg) \<and> (\<forall>b. fst (run f b) \<noteq> None)" for f
  proof (cases "libcarla_module cfg run m")
    case (Loaded m1)
    then have "call_exports run (all_exports cfg) ?m0 = Loaded m1" using eq by simp
    from call_exports_Loaded_returned [OF this, of f] h show ?thesis by blast
  next
    case (LoadFailed e m1)
    then show ?thesis by blast
  qed
  show "\<exists>m1. libcarla_module cfg run m = LoadFailed e m1 \<and> called m1 = called m @ before @ [f]"
    if h: "all_exports cfg = before @ f # rest
        \<and> (\<forall>g \<in> set before. \<forall>b. fst (run g b) = None) \<and> (\<forall>b. fst (run f b) = Some e)"
    for before f rest e
  proof -
    from h have a: "\<forall>g \<in> set before. \<forall>b. fst (run g b) = None" and b: "\<forall>b. fst (run f b) = Some e"
      and l: "all_exports cfg = before @ f # rest" by simp_all
    from call_exports_fails_at [OF a b, of rest ?m0] show ?thesis
      using eq m0 by (simp add: l)
  qed
  show "libcarla_module cfg run m = call_exports run (all_exports cfg) ?m0"
    by (rule eq)
  show "(export_ad_rss \<in> set (all_exports cfg)) = LIBCARLA_RSS_ENABLED cfg"
    by (simp add: all_exports_def)
  show "{export_geom, export_control, export_blueprint, export_actor, export_sensor,
       export_sensor_data, export_snapshot, export_weather, export_world, export_map,
       export_client, export_exception, export_commands, export_trafficmanager,
       export_lightmanager, export_osm2odr} \<subseteq> set (all_exports cfg)"
    by (simp add: all_exports_def)
qed

theorem libcarla_module_exports_all_witness:
  "(\<forall>f b. fst (run_ok f b) = None)
   \<and> libcarla_module cfg_py3_no_rss run_ok load0
       = Loaded \<lparr>path_attr = Some ''libcarla'', init_threads = False,
           called = all_exports cfg_py3_no_rss, namespace = all_exports cfg_py3_no_rss\<rparr>
   \<and> all_exports cfg_py3_no_rss =
       [export_geom, export_control, export_blueprint, export_actor, export_sensor,
        export_sensor_data, export_snapshot, export_weather, export_world, export_map,
        export_client, export_exception, export_commands, export_trafficmanager,
        export_lightmanager, export_osm2odr]
   \<and> all_exports cfg_py3_rss =
       [export_geom, export_control, export_blueprint, export_actor, export_sensor,
        export_sensor_data, export_snapshot, export_weather, export_world, export_map,
        export_client, export_exception, export_commands, export_trafficmanager,
        export_lightmanager, export_ad_rss, export_osm2odr]
   \<and> libcarla_module cfg_py3_no_rss run_sensor_fails load0
       = LoadFailed (native_error ''export_sensor'')
           \<lparr>path_attr = Some ''libcarla'', init_threads = False,
            called = [export_geom, export_control, export_blueprint, export_actor, export_sensor],
            namespace = [export_geom, export_control, export_blueprint, export_actor]\<rparr>"
proof -
  have ok: "\<forall>f b. fst (run_ok f b) = None" by (simp add: run_ok_def)
  have lists: "all_exports cfg_py3_no_rss =
       [export_geom, export_control, export_blueprint, export_actor, export_sensor,
        export_sensor_data, export_snapshot, export_weather, export_world, export_map,
        export_client, export_exception, export_commands, export_trafficmanager,
        export_lightmanager, export_osm2odr]"
    "all_exports cfg_py3_rss =
       [export_geom, export_control, export_blueprint, export_actor, export_sensor,
        export_sensor_data, export_snapshot, export_weather, export_world, export_map,
        export_client, export_exception, export_commands, export_trafficmanager,
        export_lightmanager, export_ad_rss, export_osm2odr]"
    by (simp_all add: all_exports_def cfg_py3_no_rss_def cfg_py3_rss_def)
  note inst = libcarla_module_exports_all [of cfg_py3_no_rss run_ok load0]
  note returns = inst [THEN conjunct2, THEN conjunct2, THEN conjunct1, rule_format]
  note loaded = inst [THEN conjunct1, rule_format]
  from returns [OF ok [rule_format]] obtain m1 where
    m1: "libcarla_module cfg_py3_no_rss run_ok load0 = Loaded m1" ..
  have called: "called m1 = all_exports cfg_py3_no_rss"
    using loaded [OF m1] by (simp add: load0_def)
  have run1: "libcarla_module cfg_py3_no_rss run_ok load0
       = Loaded \<lparr>path_attr = Some ''libcarla'', init_threads = False,
           called = all_exports cfg_py3_no_rss, namespace = all_exports cfg_py3_no_rss\<rparr>"
    by (simp only: lists)
       (simp add: libcarla_module_def seq_def call_export_def run_ok_def load0_def
        cfg_py3_no_rss_def)
  have run2: "libcarla_module cfg_py3_no_rss run_sensor_fails load0
       = LoadFailed (native_error ''export_sensor'')
           \<lparr>path_attr = Some ''libcarla'', init_threads = False,
            called = [export_geom, export_control, export_blueprint, export_actor, export_sensor],
            namespace = [export_geom, export_control, export_blueprint, export_actor]\<rparr>"
    by (simp add: libcarla_module_def seq_def call_export_def run_sensor_fails_def load0_def
        cfg_py3_no_rss_def)
  have sensor: "\<forall>b. fst (run_sensor_fails export_sensor b) = Some (native_error ''export_sensor'')"
    by (simp add: run_sensor_fails_def)
  have before: "\<forall>g \<in> set [export_geom, export_control, export_blueprint, export_actor].
      \<forall>b. fst (run_sensor_fails g b) = None"
    by (simp add: run_sensor_fails_def)
  have split: "all_exports cfg_py3_no_rss =
      [export_geom, export_control, export_blueprint, export_actor] @ export_sensor #
      [export_sensor_data, export_snapshot, export_weather, export_world, export_map,
       export_client, export_exception, export_commands, export_trafficmanager,
       export_lightmanager, export_osm2odr]"
    by (simp add: lists)
  note failing = libcarla_module_exports_all [of cfg_py3_no_rss run_sensor_fails load0,
      THEN conjunct2, THEN conjunct2, THEN conjunct2, THEN conjunct2, THEN conjunct1, rule_format]
  have "\<exists>m1. libcarla_module cfg_py3_no_rss run_sensor_fails load0
            = LoadFailed (native_error ''export_sensor'') m1
          \<and> called m1 = called load0
              @ [export_geom, export_control, export_blueprint, export_actor] @ [export_sensor]"
    by (rule failing [OF conjI [OF split conjI [OF before sensor]]])
  then have fails: "\<exists>m1. libcarla_module cfg_py3_no_rss run_sensor_fails load0
            = LoadFailed (native_error ''export_sensor'') m1" by blast
  show ?thesis using ok lists run1 run2 called fails by simp
qed

lemma pow2_eval: "2 powr (real_of_int e) = (if 0 \<le> e then 2 ^ nat e else 1 / 2 ^ nat (- e))"
proof (cases "0 \<le> e")
  case True
  then have "real_of_int e = real (nat e)" by simp
  then show ?thesis using True by (simp only: powr_realpow) simp
next
  case False
  then have "real_of_int e = - real (nat (- e))" by simp
  then have "2 powr (real_of_int e) = 2 powr (- real (nat (- e)))" by (rule arg_cong)
  also have "\<dots> = inverse (2 powr real (nat (- e)))" by (rule powr_minus)
  also have "\<dots> = inverse (2 ^ nat (- e))" by (simp only: powr_realpow zero_less_numeral)
  finally show ?thesis using False by (simp add: inverse_eq_divide)
qed

lemma bit_length_upper: "n < 2 ^ bit_length n"
proof (induction n rule: bit_length.induct)
  case (1 n)
  show ?case
  proof (cases "n = 0")
    case True
    then show ?thesis by (simp add: bit_length.simps)
  next
    case False
    then have "n div 2 < 2 ^ bit_length (n div 2)" by (rule "1.IH")
    then have "n < 2 * 2 ^ bit_length (n div 2)" by linarith
    then show ?thesis using False by (subst bit_length.simps) simp
  qed
qed

lemma bit_length_pos: "0 < n \<Longrightarrow> 0 < bit_length n"
  by (subst bit_length.simps) simp

lemma bit_length_lower: "0 < n \<Longrightarrow> 2 ^ (bit_length n - 1) \<le> n"
proof (induction n rule: bit_length.induct)
  case (1 n)
  then have n: "n \<noteq> 0" by simp
  have bl: "bit_length n = Suc (bit_length (n div 2))"
    using n by (subst bit_length.simps) simp
  show ?case
  proof (cases "n div 2 = 0")
    case True
    then have "bit_length (n div 2) = 0" by (simp add: bit_length.simps)
    then show ?thesis using bl "1.prems" by simp
  next
    case False
    then have pos: "0 < n div 2" by simp
    have "2 ^ (bit_length (n div 2) - 1) \<le> n div 2" using "1.IH" [OF n pos] .
    moreover obtain j where j: "bit_length (n div 2) = Suc j"
      using bit_length_pos [OF pos] by (cases "bit_length (n div 2)") simp_all
    ultimately have "2 * 2 ^ j \<le> 2 * (n div 2)" by simp
    then have "2 ^ Suc j \<le> n" by simp
    then show ?thesis using bl j by simp
  qed
qed

lemma round_half_even_less:
  assumes "2 * M < (2 * c - 1) * 2 ^ k"
  shows "round_half_even M k < c"
proof -
  define q where "q = M div 2 ^ k"
  define r where "r = M mod 2 ^ k"
  have M: "M = q * 2 ^ k + r" unfolding q_def r_def by (rule div_mult_mod_eq [symmetric])
  have c: "0 < c" using assms by (cases c) simp_all
  show ?thesis
  proof (cases "2 ^ k < 2 * r \<or> (2 * r = 2 ^ k \<and> odd q)")
    case True
    then have "2 ^ k \<le> 2 * r" by auto
    then have "(2 * q + 1) * 2 ^ k \<le> 2 * M" by (simp add: M algebra_simps)
    then have "(2 * q + 1) * 2 ^ k < (2 * c - 1) * 2 ^ k" using assms by (rule le_less_trans)
    then have "2 * q + 1 < 2 * c - 1" by (simp only: mult_less_cancel2)
    then have "q + 1 < c" by simp
    then show ?thesis using True by (auto simp add: round_half_even_def q_def [symmetric] r_def [symmetric])
  next
    case False
    have "(2 * q) * 2 ^ k \<le> 2 * M" by (simp add: M algebra_simps)
    then have "(2 * q) * 2 ^ k < (2 * c - 1) * 2 ^ k" using assms by (rule le_less_trans)
    then have "2 * q < 2 * c - 1" by (simp only: mult_less_cancel2)
    then have "q < c" by simp
    then show ?thesis using False by (auto simp add: round_half_even_def q_def [symmetric] r_def [symmetric])
  qed
qed

lemma round_half_even_near:
  assumes "0 < k"
  shows "\<bar>int (round_half_even M k) * 2 ^ k - int M\<bar> * 2 \<le> 2 ^ k"
proof -
  define q where "q = M div 2 ^ k"
  define r where "r = M mod 2 ^ k"
  have M: "M = q * 2 ^ k + r" unfolding q_def r_def by (rule div_mult_mod_eq [symmetric])
  have r: "r < 2 ^ k" by (simp add: r_def)
  show ?thesis
  proof (cases "2 ^ k < 2 * r \<or> (2 * r = 2 ^ k \<and> odd q)")
    case True
    then have h: "2 ^ k \<le> 2 * r" by auto
    have "round_half_even M k = q + 1"
      using True by (auto simp add: round_half_even_def q_def [symmetric] r_def [symmetric])
    then have "int (round_half_even M k) * 2 ^ k - int M = 2 ^ k - int r"
      by (simp add: M algebra_simps)
    moreover have "int r < 2 ^ k" using r by (metis of_nat_less_iff of_nat_numeral of_nat_power)
    moreover have "(2::int) ^ k \<le> 2 * int r" using h by (metis of_nat_le_iff of_nat_numeral of_nat_power of_nat_mult)
    ultimately show ?thesis by simp
  next
    case False
    then have h: "2 * r \<le> 2 ^ k" by auto
    have "round_half_even M k = q"
      using False by (auto simp add: round_half_even_def q_def [symmetric] r_def [symmetric])
    then have "int (round_half_even M k) * 2 ^ k - int M = - int r"
      by (simp add: M algebra_simps)
    moreover have "2 * int r \<le> (2::int) ^ k" using h by (metis of_nat_le_iff of_nat_numeral of_nat_power of_nat_mult)
    ultimately show ?thesis by simp
  qed
qed


lemma to_size_t_zero:
  "e < 0 \<Longrightarrow> q < 2 ^ nat (- e) \<Longrightarrow> to_size_t (Finite False q e) = Some 0"
  by (simp add: to_size_t_def)

lemma to_size_t_floor:
  "to_size_t (Finite False q e) =
     (if valof (Finite False q e) < 2 ^ 64 then Some (nat \<lfloor>valof (Finite False q e)\<rfloor>) else None)"
proof (cases "0 \<le> e")
  case True
  have v: "valof (Finite False q e) = real (q * 2 ^ nat e)"
    using True by (simp add: pow2_eval)
  have "(real (q * 2 ^ nat e) < 2 ^ 64) = (q * 2 ^ nat e < 2 ^ 64)"
    by (metis of_nat_less_iff of_nat_numeral of_nat_power)
  then show ?thesis using True unfolding v by (simp add: to_size_t_def del: of_nat_mult of_nat_power)
next
  case False
  define n where "n = nat (- e)"
  have v: "valof (Finite False q e) = real q / real (2 ^ n)"
    using False by (simp add: pow2_eval n_def)
  have fl: "\<lfloor>real q / real (2 ^ n)\<rfloor> = int (q div 2 ^ n)"
    by (rule floor_divide_of_nat_eq)
  have "(real q / real (2 ^ n) < 2 ^ 64) = (real q < 2 ^ 64 * real (2 ^ n))"
    by (simp add: pos_divide_less_eq)
  also have "\<dots> = (real q < real (2 ^ 64 * 2 ^ n))" by simp
  also have "\<dots> = (q < 2 ^ 64 * 2 ^ n)" by (rule of_nat_less_iff)
  also have "\<dots> = (q div 2 ^ n < 2 ^ 64)" by (simp add: div_less_iff_less_mult)
  finally have lt: "(real q / real (2 ^ n) < 2 ^ 64) = (q div 2 ^ n < 2 ^ 64)" .
  show ?thesis using False unfolding v fl lt by (simp add: to_size_t_def n_def)
qed

lemma mul_1e3_exact:
  assumes small: "1000 * m < 2 ^ 53" and lo: "- 1074 \<le> e" and hi: "e \<le> 971"
  shows "is_finite (round_to_double False (1000 * m) e)
       \<and> valof (round_to_double False (1000 * m) e) = 1000 * (real m * 2 powr (real_of_int e))"
proof (cases "m = 0")
  case True
  then show ?thesis by (simp add: round_to_double_def)
next
  case False
  define M where "M = 1000 * m"
  define b where "b = bit_length M"
  have Mpos: "0 < M" using False by (simp add: M_def)
  have "2 ^ (b - 1) \<le> M" unfolding b_def by (rule bit_length_lower [OF Mpos])
  then have "(2::nat) ^ (b - 1) < 2 ^ 53" using small by (simp add: M_def)
  then have "b - 1 < 53" by (simp only: power_strict_increasing_iff rel_simps)
  then have b: "int b \<le> 53" by simp
  define e' where "e' = max (e + int b - 53) (- 1074)"
  have le: "e' \<le> e" using b lo by (simp add: e'_def)
  have r: "round_to_double False M e = Finite False (M * 2 ^ nat (e - e')) e'"
    using Mpos le hi by (simp add: round_to_double_def b_def [symmetric] e'_def [symmetric] Let_def)
  have "real (M * 2 ^ nat (e - e')) * 2 powr (real_of_int e')
      = real M * (2 powr (real (nat (e - e'))) * 2 powr (real_of_int e'))"
    by (simp add: powr_realpow)
  also have "\<dots> = real M * 2 powr (real (nat (e - e')) + real_of_int e')"
    by (simp only: powr_add)
  also have "real (nat (e - e')) + real_of_int e' = real_of_int e" using le by simp
  finally have "valof (Finite False (M * 2 ^ nat (e - e')) e') = real M * 2 powr (real_of_int e)"
    by simp
  then show ?thesis using r by (simp add: M_def)
qed


lemma mult_1000_gap:
  assumes "1000 * (m::nat) < C"
  shows "1000 * m \<le> 1000 * ((C - 1) div 1000)"
proof -
  have "1000 * m \<le> C - 1" using assms by simp
  then have "(1000 * m) div 1000 \<le> (C - 1) div 1000" by (rule div_le_mono)
  then have "m \<le> (C - 1) div 1000" by simp
  then show ?thesis by simp
qed

lemma tie_free:
  assumes "54 \<le> n" and "n \<le> 63" and "1000 * (m::nat) < 2 ^ n"
  shows "2 * (1000 * m) < (2 * 2 ^ 53 - 1) * 2 ^ (n - 53)"
proof -
  note g = mult_1000_gap [OF assms(3)]
  consider "n = 54" | "n = 55" | "n = 56" | "n = 57" | "n = 58" | "n = 59" | "n = 60"
    | "n = 61" | "n = 62" | "n = 63"
    using assms(1,2) by atomize_elim arith
  then show ?thesis
  proof cases
    case 1
    then show ?thesis using g by simp
  next
    case 2
    then show ?thesis using g by simp
  next
    case 3
    then show ?thesis using g by simp
  next
    case 4
    then show ?thesis using g by simp
  next
    case 5
    then show ?thesis using g by simp
  next
    case 6
    then show ?thesis using g by simp
  next
    case 7
    then show ?thesis using g by simp
  next
    case 8
    then show ?thesis using g by simp
  next
    case 9
    then show ?thesis using g by simp
  next
    case 10
    then show ?thesis using g by simp
  qed
qed


lemma mul_1e3_below_one:
  assumes m: "m < 2 ^ 53" and lo: "- 1074 \<le> e"
    and lt: "real m * 2 powr (real_of_int e) < 1 / 1000"
  shows "to_size_t (round_to_double False (1000 * m) e) = Some 0"
proof (cases "m = 0")
  case True
  then show ?thesis by (simp add: round_to_double_def to_size_t_def)
next
  case False
  define M where "M = 1000 * m"
  define b where "b = bit_length M"
  define n where "n = nat (- e)"
  have Mpos: "0 < M" using False by (simp add: M_def)
  have neg: "e < 0"
  proof (rule ccontr)
    assume "\<not> e < 0"
    then have "(1::real) \<le> 2 powr (real_of_int e)" by (simp add: pow2_eval)
    moreover have "1 \<le> real m" using False by simp
    ultimately have "1 * 1 \<le> real m * 2 powr (real_of_int e)" by (intro mult_mono) simp_all
    then show False using lt by simp
  qed
  have e: "e = - int n" using neg by (simp add: n_def)
  have npos: "0 < n" using neg by (simp add: n_def)
  have "real m / 2 ^ n < 1 / 1000" using lt neg by (simp add: pow2_eval n_def)
  then have "real m * 1000 < 2 ^ n" by (simp add: field_simps)
  then have "real (1000 * m) < real (2 ^ n)" by (simp add: mult.commute)
  then have Mn: "M < 2 ^ n" unfolding M_def by (simp only: of_nat_less_iff)
  have low: "2 ^ (b - 1) \<le> M" unfolding b_def by (rule bit_length_lower [OF Mpos])
  have up: "M < 2 ^ b" unfolding b_def by (rule bit_length_upper)
  have bpos: "0 < b" unfolding b_def by (rule bit_length_pos [OF Mpos])
  have "(2::nat) ^ (b - 1) < 2 ^ n" using low Mn by (rule le_less_trans)
  then have "b - 1 < n" by (simp only: power_strict_increasing_iff rel_simps)
  then have bn: "b \<le> n" by simp
  define e' where "e' = max (e + int b - 53) (- 1074)"
  show ?thesis
  proof (cases "b \<le> 53")
    case True
    have le: "e' \<le> e" using True lo by (simp add: e'_def)
    have r: "round_to_double False M e = Finite False (M * 2 ^ nat (e - e')) e'"
      using Mpos le neg
      by (simp add: round_to_double_def b_def [symmetric] e'_def [symmetric] Let_def)
    have "nat (- e') = n + nat (e - e')" using le neg by (simp add: n_def)
    then have "(2::nat) ^ nat (- e') = 2 ^ n * 2 ^ nat (e - e')" by (simp add: power_add)
    moreover have "M * 2 ^ nat (e - e') < 2 ^ n * 2 ^ nat (e - e')" using Mn by simp
    ultimately have "M * 2 ^ nat (e - e') < 2 ^ nat (- e')" by simp
    moreover have "e' < 0" using le neg by simp
    ultimately have "to_size_t (Finite False (M * 2 ^ nat (e - e')) e') = Some 0"
      by (intro to_size_t_zero)
    then show ?thesis using r by (simp add: M_def)
  next
    case False
    then have b54: "54 \<le> b" by simp
    have e'_eq: "e' = e + int b - 53" using b54 lo by (simp add: e'_def)
    have gt: "\<not> e' \<le> e" using b54 by (simp add: e'_eq)
    define k where "k = b - 53"
    have k: "nat (e' - e) = k" using b54 by (simp add: e'_eq k_def)
    have kpos: "0 < k" using b54 by (simp add: k_def)
    have e'n: "e' = int b - int n - 53" by (simp add: e'_eq e)
    have e'le: "e' \<le> - 53" using bn by (simp add: e'n)
    define q where "q = round_half_even M k"
    have r: "round_to_double False M e =
       (if q = 2 ^ 53 then Finite False (2 ^ 52) (e' + 1) else Finite False q e')"
      using Mpos gt e'le
      by (simp add: round_to_double_def b_def [symmetric] e'_def [symmetric] Let_def k
          q_def [symmetric])
    have "b = 53 + k" using b54 by (simp add: k_def)
    then have Mk: "M < 2 ^ 53 * 2 ^ k" using up by (simp add: power_add)
    have qle: "q < 2 ^ 53 + 1"
      unfolding q_def
    proof (rule round_half_even_less)
      have "2 * M < 2 * (2 ^ 53 * 2 ^ k)" using Mk by simp
      also have "\<dots> \<le> (2 * (2 ^ 53 + 1) - 1) * 2 ^ k" by simp
      finally show "2 * M < (2 * (2 ^ 53 + 1) - 1) * 2 ^ k" .
    qed
    show ?thesis
    proof (cases "b < n")
      case True
      then have e'54: "e' \<le> - 54" by (simp add: e'n)
      have "to_size_t (if q = 2 ^ 53 then Finite False (2 ^ 52) (e' + 1) else Finite False q e')
          = Some 0"
      proof (cases "q = 2 ^ 53")
        case True
        have "(2::nat) ^ 52 < 2 ^ nat (- (e' + 1))"
          using e'54 by (intro power_strict_increasing) simp_all
        moreover have "e' + 1 < 0" using e'54 by simp
        ultimately have "to_size_t (Finite False (2 ^ 52) (e' + 1)) = Some 0"
          by (intro to_size_t_zero)
        then show ?thesis using True by simp
      next
        case False
        then have "q < 2 ^ 53" using qle by simp
        moreover have "(2::nat) ^ 53 < 2 ^ nat (- e')"
          using e'54 by (intro power_strict_increasing) simp_all
        ultimately have "q < 2 ^ nat (- e')" by (rule less_trans)
        moreover have "e' < 0" using e'54 by simp
        ultimately have "to_size_t (Finite False q e') = Some 0"
          by (intro to_size_t_zero)
        then show ?thesis using False by simp
      qed
      then show ?thesis using r by (simp add: M_def)
    next
      case False
      then have bn_eq: "b = n" using bn by simp
      have "M < 1000 * 2 ^ 53" using m by (simp add: M_def)
      also have "\<dots> < (2::nat) ^ 63" by simp
      finally have "(2::nat) ^ (n - 1) < 2 ^ 63" using low bn_eq by simp
      then have "n - 1 < 63" by (simp only: power_strict_increasing_iff rel_simps)
      then have n63: "n \<le> 63" by simp
      have n54: "54 \<le> n" using b54 bn_eq by simp
      have "2 * (1000 * m) < (2 * 2 ^ 53 - 1) * 2 ^ (n - 53)"
        using n54 n63 Mn [unfolded M_def] by (rule tie_free)
      then have "2 * M < (2 * 2 ^ 53 - 1) * 2 ^ k" by (simp add: M_def k_def bn_eq)
      then have q53: "q < 2 ^ 53" unfolding q_def by (rule round_half_even_less)
      have e'53: "e' = - 53" by (simp add: e'n bn_eq)
      have "q < 2 ^ nat (- e')" using q53 by (simp add: e'53)
      moreover have "e' < 0" by (simp add: e'53)
      ultimately have "to_size_t (Finite False q e') = Some 0"
        by (intro to_size_t_zero)
      then show ?thesis using r q53 by (simp add: M_def)
    qed
  qed
qed


lemma round_to_double_cases:
  "(\<exists>q e'. round_to_double sg M e = Finite sg q e') \<or> round_to_double sg M e = Infinity sg"
  by (simp add: round_to_double_def Let_def)

lemma mul_1e3_error:
  assumes lo: "- 1074 \<le> e" and fin: "is_finite (round_to_double False M e)"
  shows "\<bar>valof (round_to_double False M e) - real M * 2 powr (real_of_int e)\<bar>
           \<le> real M * 2 powr (real_of_int e) / 2 ^ 53"
proof (cases "M = 0")
  case True
  then show ?thesis by (simp add: round_to_double_def)
next
  case False
  then have Mpos: "0 < M" by simp
  define b where "b = bit_length M"
  define e' where "e' = max (e + int b - 53) (- 1074)"
  define P where "P = real M * 2 powr (real_of_int e)"
  have P0: "0 \<le> P" by (simp add: P_def)
  show ?thesis
  proof (cases "e' \<le> e")
    case True
    have r: "round_to_double False M e = Finite False (M * 2 ^ nat (e - e')) e'"
      using Mpos True fin
      by (simp add: round_to_double_def b_def [symmetric] e'_def [symmetric] Let_def split: if_splits)
    have "real (M * 2 ^ nat (e - e')) * 2 powr (real_of_int e')
        = real M * (2 powr (real (nat (e - e'))) * 2 powr (real_of_int e'))"
      by (simp add: powr_realpow)
    also have "\<dots> = real M * 2 powr (real (nat (e - e')) + real_of_int e')"
      by (simp only: powr_add)
    also have "real (nat (e - e')) + real_of_int e' = real_of_int e" using True by simp
    finally have "valof (Finite False (M * 2 ^ nat (e - e')) e') = P"
      by (simp add: P_def)
    then show ?thesis using r P0 by (simp add: P_def [symmetric])
  next
    case False
    then have e'_eq: "e' = e + int b - 53" and b54: "54 \<le> b"
      using lo by (simp_all add: e'_def max_def split: if_splits)
    define k where "k = b - 53"
    have k: "nat (e' - e) = k" using b54 by (simp add: e'_eq k_def)
    have kpos: "0 < k" using b54 by (simp add: k_def)
    have e'k: "e' = e + int k" using b54 by (simp add: e'_eq k_def)
    define q where "q = round_half_even M k"
    have r: "round_to_double False M e =
       (if q = 2 ^ 53 then Finite False (2 ^ 52) (e' + 1) else Finite False q e')"
      using Mpos False fin
      by (simp add: round_to_double_def b_def [symmetric] e'_def [symmetric] Let_def k
          q_def [symmetric] split: if_splits)
    have pw: "2 powr (real_of_int e') = 2 ^ k * 2 powr (real_of_int e)"
      by (simp add: e'k powr_add powr_realpow mult.commute)
    have "valof (Finite False (2 ^ 52) (e' + 1)) = 2 ^ 53 * 2 powr (real_of_int e')"
      by (simp add: powr_add)
    then have v: "valof (round_to_double False M e) = real q * 2 powr (real_of_int e')"
      using r by simp
    have near: "\<bar>int q * 2 ^ k - int M\<bar> * 2 \<le> 2 ^ k"
      unfolding q_def by (rule round_half_even_near [OF kpos])
    have "real_of_int (\<bar>int q * 2 ^ k - int M\<bar> * 2) \<le> real_of_int (2 ^ k)"
      using near by (simp only: of_int_le_iff)
    then have near': "\<bar>real q * 2 ^ k - real M\<bar> * 2 \<le> 2 ^ k" by simp
    have low: "2 ^ (b - 1) \<le> M" unfolding b_def by (rule bit_length_lower [OF Mpos])
    have "b - 1 = 52 + k" using b54 by (simp add: k_def)
    then have "2 ^ 52 * 2 ^ k \<le> M" using low by (simp add: power_add)
    then have "real (2 ^ 52 * 2 ^ k) \<le> real M" by (simp only: of_nat_le_iff)
    then have lowr: "2 ^ 52 * 2 ^ k \<le> real M" by simp
    have "valof (round_to_double False M e) - P = (real q * 2 ^ k - real M) * 2 powr (real_of_int e)"
      by (simp add: v pw P_def algebra_simps)
    then have "\<bar>valof (round_to_double False M e) - P\<bar>
        = \<bar>real q * 2 ^ k - real M\<bar> * 2 powr (real_of_int e)"
      by (simp add: abs_mult)
    also have "\<dots> \<le> (2 ^ k / 2) * 2 powr (real_of_int e)"
      using near' by (intro mult_right_mono) simp_all
    also have "\<dots> \<le> (real M / 2 ^ 53) * 2 powr (real_of_int e)"
      using lowr by (intro mult_right_mono) simp_all
    finally show ?thesis by (simp add: P_def)
  qed
qed

text \<open>
  C10, amended. For a finite non-negative double \<open>seconds\<close>:
  \<open>TimeDurationFromSeconds\<close> returns the whole milliseconds of the double product
  \<open>1e3 * seconds\<close>, fraction dropped, when that product is finite and below \<open>2\<^sup>6\<^sup>4\<close>, and
  is undefined otherwise; the double product is within the relative error \<open>2\<^sup>-\<^sup>5\<^sup>3\<close> of the
  exact product and equal to it when \<open>1000 \<sqdot> m < 2\<^sup>5\<^sup>3\<close>; every \<open>seconds\<close> below \<open>0.001\<close>
  gives the zero duration.
\<close>

theorem TimeDurationFromSeconds_truncates_double_product:
  assumes wf: "wf_double seconds" and nn: "seconds = Finite False m e"
  shows "(valof seconds < 1 / 1000 \<longrightarrow> TimeDurationFromSeconds seconds = Some (milliseconds 0))
     \<and> TimeDurationFromSeconds seconds =
         (if is_finite (fmul double_1e3 seconds) \<and> valof (fmul double_1e3 seconds) < 2 ^ 64
          then Some (milliseconds (nat \<lfloor>valof (fmul double_1e3 seconds)\<rfloor>)) else None)
     \<and> (is_finite (fmul double_1e3 seconds) \<longrightarrow>
          \<bar>valof (fmul double_1e3 seconds) - 1000 * valof seconds\<bar>
            \<le> 1000 * valof seconds / 2 ^ 53)
     \<and> (1000 * m < 2 ^ 53 \<longrightarrow>
          is_finite (fmul double_1e3 seconds)
          \<and> valof (fmul double_1e3 seconds) = 1000 * valof seconds)"
proof -
  have m: "m < 2 ^ 53" and lo: "- 1074 \<le> e" and hi: "e \<le> 971"
    using wf by (simp_all add: nn wf_double_def)
  have p: "fmul double_1e3 seconds = round_to_double False (1000 * m) e"
    by (simp add: nn double_1e3_def)
  have v: "valof seconds = real m * 2 powr (real_of_int e)" by (simp add: nn)
  have a: "TimeDurationFromSeconds seconds = Some (milliseconds 0)" if "valof seconds < 1 / 1000"
    using mul_1e3_below_one [OF m lo that [unfolded v]]
    by (simp add: TimeDurationFromSeconds_def p)
  have b: "TimeDurationFromSeconds seconds =
         (if is_finite (fmul double_1e3 seconds) \<and> valof (fmul double_1e3 seconds) < 2 ^ 64
          then Some (milliseconds (nat \<lfloor>valof (fmul double_1e3 seconds)\<rfloor>)) else None)"
  proof -
    from round_to_double_cases [of False "1000 * m" e]
    consider q e' where "round_to_double False (1000 * m) e = Finite False q e'"
      | "round_to_double False (1000 * m) e = Infinity False"
      by blast
    then show ?thesis
    proof cases
      case 1
      show ?thesis
        unfolding TimeDurationFromSeconds_def p 1 to_size_t_floor by simp
    next
      case 2
      show ?thesis
        unfolding TimeDurationFromSeconds_def p 2 by (simp add: to_size_t_def)
    qed
  qed
  have c: "\<bar>valof (fmul double_1e3 seconds) - 1000 * valof seconds\<bar>
            \<le> 1000 * valof seconds / 2 ^ 53" if "is_finite (fmul double_1e3 seconds)"
    using mul_1e3_error [OF lo that [unfolded p]] by (simp add: p v mult.assoc)
  have d: "is_finite (fmul double_1e3 seconds)
          \<and> valof (fmul double_1e3 seconds) = 1000 * valof seconds" if "1000 * m < 2 ^ 53"
    using mul_1e3_exact [OF that lo hi] by (simp add: p v)
  show ?thesis using a b c d by blast
qed

theorem TimeDurationFromSeconds_truncates_double_product_witness:
  "wf_double (Finite False 4611686018427387 (- 62))
   \<and> valof (Finite False 4611686018427387 (- 62)) < 1 / 1000
   \<and> TimeDurationFromSeconds (Finite False 4611686018427387 (- 62)) = Some (milliseconds 0)
   \<and> wf_double (Finite False 3 (- 1))
   \<and> 1000 * (3::nat) < 2 ^ 53
   \<and> valof (fmul double_1e3 (Finite False 3 (- 1))) = 1000 * valof (Finite False 3 (- 1))
   \<and> TimeDurationFromSeconds (Finite False 3 (- 1)) = Some (milliseconds 1500)"
proof -
  have wf1: "wf_double (Finite False 4611686018427387 (- 62))" by (simp add: wf_double_def)
  have lt: "valof (Finite False 4611686018427387 (- 62)) < 1 / 1000"
    by (simp add: powr_neg_numeral)
  have z: "TimeDurationFromSeconds (Finite False 4611686018427387 (- 62)) = Some (milliseconds 0)"
    using TimeDurationFromSeconds_truncates_double_product [OF wf1 refl] lt by blast
  have wf2: "wf_double (Finite False 3 (- 1))" by (simp add: wf_double_def)
  have small: "1000 * (3::nat) < 2 ^ 53" by simp
  have ex: "valof (fmul double_1e3 (Finite False 3 (- 1))) = 1000 * valof (Finite False 3 (- 1))"
    using TimeDurationFromSeconds_truncates_double_product [OF wf2 refl] small by blast
  have t: "TimeDurationFromSeconds (Finite False 3 (- 1)) = Some (milliseconds 1500)"
    by (simp add: TimeDurationFromSeconds_def to_size_t_def double_1e3_def round_to_double_def
        round_half_even_def bit_length.simps)
  show ?thesis using wf1 lt z wf2 small ex t by simp
qed

text \<open>
  C10 as stated fails. The double nearest to \<open>0.009\<close> is below \<open>9/1000\<close>, so the whole
  milliseconds of the exact product are 8, but the double product rounds to \<open>9.0\<close> and
  the function returns 9 milliseconds. For \<open>2\<^sup>6\<^sup>1\<close> seconds the product does not fit
  \<^verbatim>\<open>size_t\<close> and no duration is defined.
\<close>

theorem TimeDurationFromSeconds_not_exact_trunc:
  "wf_double (Finite False 5188146770730811 (- 59))
   \<and> 0 \<le> valof (Finite False 5188146770730811 (- 59))
   \<and> \<lfloor>1000 * valof (Finite False 5188146770730811 (- 59))\<rfloor> = 8
   \<and> TimeDurationFromSeconds (Finite False 5188146770730811 (- 59)) = Some (milliseconds 9)
   \<and> wf_double (Finite False 1 61)
   \<and> 0 \<le> valof (Finite False 1 61)
   \<and> TimeDurationFromSeconds (Finite False 1 61) = None"
proof -
  have bl: "bit_length 5188146770730811000 = 63" by (simp add: bit_length.simps)
  have a: "TimeDurationFromSeconds (Finite False 5188146770730811 (- 59)) = Some (milliseconds 9)"
    by (simp add: TimeDurationFromSeconds_def to_size_t_def double_1e3_def round_to_double_def
        round_half_even_def bl)
  have f: "\<lfloor>1000 * valof (Finite False 5188146770730811 (- 59))\<rfloor> = 8"
    by (simp add: powr_neg_numeral floor_eq_iff)
  have b: "TimeDurationFromSeconds (Finite False 1 61) = None"
    by (simp add: TimeDurationFromSeconds_def to_size_t_def double_1e3_def round_to_double_def
        round_half_even_def bit_length.simps)
  show ?thesis using a f b by (simp add: wf_double_def)
qed

end
